theory Spec2Isabelle
  imports Main "HOL-Library.Char_ord" "HOL-Library.List_Lexorder"
begin

section \<open>Strings of the platform\<close>

text \<open>
  Header values reach the worker as byte strings: every code unit is below 256, so a
  JavaScript string of the program is a \<^typ>\<open>string\<close> here, one \<^typ>\<open>char\<close> per
  code unit (Latin-1). The string methods the program calls are modelled on that range.
\<close>

text \<open>\<^verbatim>\<open>String.prototype.toLowerCase\<close>: on Latin-1 the letters A-Z and
  the letters 0xC0-0xDE (without the multiplication sign 0xD7) move up by 32.\<close>

definition lowerChar :: "char \<Rightarrow> char" where
  "lowerChar c =
     (let n = (of_char c :: nat)
      in if (65 \<le> n \<and> n \<le> 90) \<or> (192 \<le> n \<and> n \<le> 222 \<and> n \<noteq> 215)
         then char_of (n + 32) else c)"

definition toLowerCase :: "string \<Rightarrow> string" where
  "toLowerCase s = map lowerChar s"

text \<open>\<^verbatim>\<open>String.prototype.startsWith\<close>.\<close>

definition startsWith :: "string \<Rightarrow> string \<Rightarrow> bool" where
  "startsWith s p = (take (length p) s = p)"

text \<open>The white space and line terminators of ECMAScript below 256: TAB, LF, VT, FF,
  CR, SPACE and NBSP.\<close>

definition isWhiteSpace :: "char \<Rightarrow> bool" where
  "isWhiteSpace c =
     (let n = (of_char c :: nat) in (9 \<le> n \<and> n \<le> 13) \<or> n = 32 \<or> n = 160)"

text \<open>\<^verbatim>\<open>String.prototype.trim\<close>: white space is removed at both ends.\<close>

definition trim :: "string \<Rightarrow> string" where
  "trim s = rev (dropWhile isWhiteSpace (rev (dropWhile isWhiteSpace s)))"

text \<open>\<^verbatim>\<open>String.prototype.split\<close> with a separator of one character: the
  result is never empty, the empty string gives one empty segment.\<close>

fun str_split :: "char \<Rightarrow> string \<Rightarrow> string list" where
  "str_split sep [] = [[]]"
| "str_split sep (c # cs) =
     (if c = sep then [] # str_split sep cs
      else (case str_split sep cs of
              [] \<Rightarrow> [[c]]
            | seg # segs \<Rightarrow> (c # seg) # segs))"

text \<open>\<^verbatim>\<open>Array.prototype.join\<close> on an array of strings.\<close>

fun str_join :: "string \<Rightarrow> string list \<Rightarrow> string" where
  "str_join sep [] = []"
| "str_join sep [x] = x"
| "str_join sep (x # y # ys) = x @ sep @ str_join sep (y # ys)"

section \<open>URLs\<close>

text \<open>
  \<^verbatim>\<open>new URL(request.url)\<close> is the platform's parser. \<^verbatim>\<open>request.url\<close> is
  always the serialisation of a parsed http(s) URL, so the constructor cannot throw where
  the program calls it; the model passes the parsed record, with the getters the program
  reads defined on it as the URL standard defines them.
\<close>

record url =
  scheme :: string
  hostname :: string
  port :: "string option"
  pathname :: string
  query :: string

definition host :: "url \<Rightarrow> string" where
  "host u = hostname u @ (case port u of None \<Rightarrow> [] | Some p \<Rightarrow> CHR '':'' # p)"

definition origin :: "url \<Rightarrow> string" where
  "origin u = scheme u @ ''://'' @ host u"

text \<open>\<^verbatim>\<open>url.search\<close>: empty when the query is absent or empty, otherwise the
  query after a question mark.\<close>

definition search :: "url \<Rightarrow> string" where
  "search u = (if query u = [] then [] else CHR ''?'' # query u)"

definition href :: "url \<Rightarrow> string" where
  "href u = origin u @ pathname u @ search u"

section \<open>The cookie rewrite\<close>

text \<open>The three mutable flags and the output array of \<^verbatim>\<open>modifyCookie\<close>.\<close>

record rewrite_state =
  newCookieParts :: "string list"
  hasDomain :: bool
  hasSameSite :: bool
  hasSecure :: bool

text \<open>One pass of the \<^verbatim>\<open>for\<close> loop, on \<^verbatim>\<open>cookieParts[i]\<close>:
  \<^verbatim>\<open>part\<close> is the segment in lower case, the segment itself is pushed in the
  last branch.\<close>

definition loop_body :: "url \<Rightarrow> rewrite_state \<Rightarrow> string \<Rightarrow> rewrite_state" where
  "loop_body u st cookiePart =
     (let part = toLowerCase cookiePart
      in if startsWith part ''domain='' then
           st\<lparr>newCookieParts := newCookieParts st @ [''Domain='' @ hostname u],
              hasDomain := True\<rparr>
         else if startsWith part ''samesite='' then
           st\<lparr>newCookieParts := newCookieParts st @ [''SameSite=None''],
              hasSameSite := True\<rparr>
         else if part = ''secure'' then
           st\<lparr>newCookieParts := newCookieParts st @ [''Secure''],
              hasSecure := True\<rparr>
         else
           st\<lparr>newCookieParts := newCookieParts st @ [cookiePart]\<rparr>)"

text \<open>The three \<^verbatim>\<open>if (!has...)\<close> statements after the loop.\<close>

definition add_missing :: "url \<Rightarrow> rewrite_state \<Rightarrow> rewrite_state" where
  "add_missing u st =
     (let st1 = (if \<not> hasDomain st
                 then st\<lparr>newCookieParts := newCookieParts st @ [''Domain='' @ hostname u]\<rparr>
                 else st);
          st2 = (if \<not> hasSameSite st1
                 then st1\<lparr>newCookieParts := newCookieParts st1 @ [''SameSite=None'']\<rparr>
                 else st1);
          st3 = (if \<not> hasSecure st2
                 then st2\<lparr>newCookieParts := newCookieParts st2 @ [''Secure'']\<rparr>
                 else st2)
      in st3)"

text \<open>\<^verbatim>\<open>cookie.split(';').map(part => part.trim())\<close>.\<close>

definition cookie_segments :: "string \<Rightarrow> string list" where
  "cookie_segments cookie = map trim (str_split CHR '';'' cookie)"

text \<open>The array \<^verbatim>\<open>newCookieParts\<close> when \<^verbatim>\<open>modifyCookie\<close> reaches its
  last line: the main part, the loop over the segments from index 1, the missing
  attributes.\<close>

definition final_parts :: "string \<Rightarrow> url \<Rightarrow> string list" where
  "final_parts cookie u =
     (let cookieParts = cookie_segments cookie;
          mainPart = hd cookieParts;
          st0 = \<lparr>newCookieParts = [mainPart], hasDomain = False,
                 hasSameSite = False, hasSecure = False\<rparr>;
          st1 = foldl (loop_body u) st0 (tl cookieParts)
      in newCookieParts (add_missing u st1))"

text \<open>\<^verbatim>\<open>modifyCookie(cookie, requestUrl)\<close>: \<^verbatim>\<open>null\<close> is \<open>None\<close>. The
  empty string is the only falsy string.\<close>

definition modifyCookie :: "string \<Rightarrow> url \<Rightarrow> string option" where
  "modifyCookie cookie requestUrl =
     (if cookie = [] then None
      else Some (str_join ''; '' (final_parts cookie requestUrl)))"

text \<open>The three tests of the loop, as predicates on a segment.\<close>

definition isDomain :: "string \<Rightarrow> bool" where
  "isDomain p = startsWith (toLowerCase p) ''domain=''"

definition isSameSite :: "string \<Rightarrow> bool" where
  "isSameSite p = startsWith (toLowerCase p) ''samesite=''"

definition isSecure :: "string \<Rightarrow> bool" where
  "isSecure p = (toLowerCase p = ''secure'')"

definition isOther :: "string \<Rightarrow> bool" where
  "isOther p = (\<not> isDomain p \<and> \<not> isSameSite p \<and> \<not> isSecure p)"

text \<open>The attributes of a \<^verbatim>\<open>Set-Cookie\<close> value: its segments after the first,
  as the loop from index 1 reads them.\<close>

definition attribute_segments :: "string \<Rightarrow> string list" where
  "attribute_segments s = tl (cookie_segments s)"

text \<open>What the loop pushes for one segment, and what the statements after the loop
  push for a list of segments: the loop and the flags written as list functions.\<close>

definition rewrite_part :: "url \<Rightarrow> string \<Rightarrow> string" where
  "rewrite_part u p =
     (if isDomain p then ''Domain='' @ hostname u
      else if isSameSite p then ''SameSite=None''
      else if isSecure p then ''Secure'' else p)"

definition missing_parts :: "url \<Rightarrow> string list \<Rightarrow> string list" where
  "missing_parts u ps =
     (if list_ex isDomain ps then [] else [''Domain='' @ hostname u]) @
     (if list_ex isSameSite ps then [] else [''SameSite=None'']) @
     (if list_ex isSecure ps then [] else [''Secure''])"

text \<open>A string that \<^verbatim>\<open>trim\<close> leaves alone, and a host name that can stand in
  a cookie attribute: no semicolon, no white space at its end.\<close>

definition trimmed :: "string \<Rightarrow> bool" where
  "trimmed p = (p = [] \<or> (\<not> isWhiteSpace (hd p) \<and> \<not> isWhiteSpace (last p)))"

definition hostname_ok :: "string \<Rightarrow> bool" where
  "hostname_ok h = (CHR '';'' \<notin> set h \<and> (h = [] \<or> \<not> isWhiteSpace (last h)))"

subsection \<open>The rewrite as the specification words it\<close>

text \<open>
  The specification reads a segment as a key with an optional value: the key is the text
  before the first equals sign, and the segment has a value when there is one. A segment is
  a Domain (a SameSite) attribute when its key is that word in any casing and it has a
  value; it is the bare Secure token when it has no value and is that word in any casing.
\<close>

definition spec_key :: "string \<Rightarrow> string" where
  "spec_key seg = takeWhile (\<lambda>c. c \<noteq> CHR ''='') seg"

definition spec_has_value :: "string \<Rightarrow> bool" where
  "spec_has_value seg = (CHR ''='' \<in> set seg)"

definition spec_is_domain :: "string \<Rightarrow> bool" where
  "spec_is_domain seg = (spec_has_value seg \<and> toLowerCase (spec_key seg) = ''domain'')"

definition spec_is_samesite :: "string \<Rightarrow> bool" where
  "spec_is_samesite seg = (spec_has_value seg \<and> toLowerCase (spec_key seg) = ''samesite'')"

definition spec_is_secure :: "string \<Rightarrow> bool" where
  "spec_is_secure seg = (\<not> spec_has_value seg \<and> toLowerCase seg = ''secure'')"

definition spec_rewrite_segment :: "string \<Rightarrow> string \<Rightarrow> string" where
  "spec_rewrite_segment h seg =
     (if spec_is_domain seg then ''Domain='' @ h
      else if spec_is_samesite seg then ''SameSite=None''
      else if spec_is_secure seg then ''Secure''
      else seg)"

definition spec_appended :: "string \<Rightarrow> string list \<Rightarrow> string list" where
  "spec_appended h segs =
     (if list_ex spec_is_domain segs then [] else [''Domain='' @ h]) @
     (if list_ex spec_is_samesite segs then [] else [''SameSite=None'']) @
     (if list_ex spec_is_secure segs then [] else [''Secure''])"

definition spec_rewrite :: "string \<Rightarrow> string \<Rightarrow> string option" where
  "spec_rewrite cookie h =
     (if cookie = [] then None
      else (let segs = map trim (str_split CHR '';'' cookie)
            in Some (str_join ''; ''
                 (hd segs # map (spec_rewrite_segment h) (tl segs) @ spec_appended h (tl segs)))))"

section \<open>Headers, requests and responses of the platform\<close>

text \<open>
  A \<^verbatim>\<open>Headers\<close> object is its header list: names and values in the order they
  were added, a name as often as it was appended. Names are compared without regard to
  case.
\<close>

type_synonym headers = "(string \<times> string) list"

definition same_name :: "string \<Rightarrow> string \<Rightarrow> bool" where
  "same_name a b = (toLowerCase a = toLowerCase b)"

text \<open>\<^verbatim>\<open>headers.getAll(name)\<close>, the platform's method for the values of
  \<^verbatim>\<open>Set-Cookie\<close>, one entry per header.\<close>

definition headers_getAll :: "string \<Rightarrow> headers \<Rightarrow> string list" where
  "headers_getAll name h = map snd (filter (\<lambda>e. same_name (fst e) name) h)"

definition headers_has :: "string \<Rightarrow> headers \<Rightarrow> bool" where
  "headers_has name h = list_ex (\<lambda>e. same_name (fst e) name) h"

text \<open>\<^verbatim>\<open>headers.get(name)\<close>: the values of the name joined by a comma and a
  space, \<^verbatim>\<open>null\<close> when there is none.\<close>

definition headers_get :: "string \<Rightarrow> headers \<Rightarrow> string option" where
  "headers_get name h =
     (if headers_has name h then Some (str_join '', '' (headers_getAll name h)) else None)"

definition headers_append :: "string \<Rightarrow> string \<Rightarrow> headers \<Rightarrow> headers" where
  "headers_append name v h = h @ [(name, v)]"

text \<open>\<^verbatim>\<open>headers.set(name, value)\<close>: the first header of that name takes the
  value and the later ones are removed; a new name is appended.\<close>

fun set_first :: "string \<Rightarrow> string \<Rightarrow> headers \<Rightarrow> headers" where
  "set_first name v [] = []"
| "set_first name v (e # h) =
     (if same_name (fst e) name
      then (fst e, v) # filter (\<lambda>e'. \<not> same_name (fst e') name) h
      else e # set_first name v h)"

definition headers_set :: "string \<Rightarrow> string \<Rightarrow> headers \<Rightarrow> headers" where
  "headers_set name v h = (if headers_has name h then set_first name v h else h @ [(name, v)])"

text \<open>The pairs \<^verbatim>\<open>headers.forEach\<close> visits: the names in lower case, sorted, each
  once with its values combined, but \<^verbatim>\<open>set-cookie\<close> once per value.\<close>

definition headers_entries :: "headers \<Rightarrow> (string \<times> string) list" where
  "headers_entries h =
     concat (map (\<lambda>n. if n = ''set-cookie''
                       then map (\<lambda>v. (n, v)) (headers_getAll n h)
                       else [(n, str_join '', '' (headers_getAll n h))])
                (sort (remdups (map (\<lambda>e. toLowerCase (fst e)) h))))"

datatype redirect_mode = RedirectFollow | RedirectManual | RedirectError

text \<open>The inbound request, with \<^verbatim>\<open>new URL(request.url)\<close> in place of the
  string.\<close>

record request =
  req_url :: url
  req_method :: string
  req_headers :: headers
  req_body :: "string option"
  req_redirect :: redirect_mode

text \<open>What \<^verbatim>\<open>new Request(backendUrl, {method, headers, body, redirect})\<close> is
  built from: the request handed to the HTTP client.\<close>

record fetch_request =
  fr_url :: string
  fr_method :: string
  fr_headers :: headers
  fr_body :: "string option"
  fr_redirect :: redirect_mode

text \<open>A response as the program reads and builds it. Building one is total here: the
  checks the platform's constructor makes on a status (its range, a body with a status
  that allows none) are not part of the model.\<close>

record response =
  resp_status :: nat
  resp_statusText :: string
  resp_headers :: headers
  resp_body :: "string option"

text \<open>The global \<^verbatim>\<open>fetch\<close>: the HTTP client answers a request with a response.
  It is a parameter of every handler; a handler returns its response together with the
  requests it handed to the client, in order.\<close>

type_synonym client = "fetch_request \<Rightarrow> response"

text \<open>\<^verbatim>\<open>await response.arrayBuffer()\<close>: the bytes of the body, none for a
  response without one.\<close>

definition arrayBuffer :: "response \<Rightarrow> string" where
  "arrayBuffer r = (case resp_body r of None \<Rightarrow> [] | Some b \<Rightarrow> b)"

text \<open>\<^verbatim>\<open>new Response(text)\<close> with a string body and no init: status 200, empty
  status text, the content type of a string body.\<close>

definition text_response :: "string \<Rightarrow> response" where
  "text_response t =
     \<lparr>resp_status = 200, resp_statusText = [],
      resp_headers = [(''content-type'', ''text/plain;charset=UTF-8'')],
      resp_body = Some t\<rparr>"

text \<open>\<^verbatim>\<open>String.prototype.replace\<close> with a string pattern: the first occurrence
  is replaced. (The replacement the program passes is empty, so the dollar patterns of a
  replacement string do not arise.)\<close>

fun str_replace :: "string \<Rightarrow> string \<Rightarrow> string \<Rightarrow> string" where
  "str_replace pat rep [] = (if pat = [] then rep else [])"
| "str_replace pat rep (c # cs) =
     (if startsWith (c # cs) pat then rep @ drop (length pat) (c # cs)
      else c # str_replace pat rep cs)"

section \<open>The handlers\<close>

text \<open>
  The repository holds three versions of the worker: the template
  (\<^verbatim>\<open>src/unnamed/part_000\<close>, prefix \<^verbatim>\<open>/api/\<close>), the worker
  (\<^verbatim>\<open>src/index.ts\<close>, first document, prefix \<^verbatim>\<open>/fly-api/\<close>) and the
  Pages function (\<^verbatim>\<open>src/index.ts\<close>, second document, which strips the prefix
  and handles redirects itself). \<^verbatim>\<open>modifyCookie\<close> and the block that rebuilds
  a response are the same text in all three.
\<close>

text \<open>The callback of \<^verbatim>\<open>response.headers.forEach\<close>.\<close>

definition copy_header :: "headers \<Rightarrow> string \<times> string \<Rightarrow> headers" where
  "copy_header acc e =
     (if toLowerCase (fst e) \<noteq> ''set-cookie'' then headers_set (fst e) (snd e) acc else acc)"

text \<open>The callback of \<^verbatim>\<open>setCookieHeaders.forEach\<close>: a \<^verbatim>\<open>null\<close> and an
  empty string are both falsy.\<close>

definition append_cookie :: "request \<Rightarrow> headers \<Rightarrow> string \<Rightarrow> headers" where
  "append_cookie request acc cookie =
     (case modifyCookie cookie (req_url request) of
        None \<Rightarrow> acc
      | Some modifiedCookie \<Rightarrow>
          if modifiedCookie = [] then acc
          else headers_append ''Set-Cookie'' modifiedCookie acc)"

text \<open>From \<^verbatim>\<open>const responseData = await response.arrayBuffer()\<close> to
  \<^verbatim>\<open>return newResponse\<close>. A response built from an array buffer starts with no
  header.\<close>

definition rebuildResponse :: "response \<Rightarrow> request \<Rightarrow> url \<Rightarrow> response" where
  "rebuildResponse response request u =
     (let responseData = arrayBuffer response;
          h0 = foldl copy_header [] (headers_entries (resp_headers response));
          setCookieHeaders = headers_getAll ''Set-Cookie'' (resp_headers response);
          h1 = (if setCookieHeaders \<noteq> []
                then foldl (append_cookie request) h0 setCookieHeaders else h0);
          h2 = headers_set ''Access-Control-Allow-Origin'' (origin u) h1;
          h3 = headers_set ''Access-Control-Allow-Credentials'' ''true'' h2;
          h4 = headers_set ''Access-Control-Allow-Methods''
                 ''GET, POST, PUT, DELETE, OPTIONS'' h3;
          h5 = headers_set ''Access-Control-Allow-Headers''
                 ''Content-Type, Authorization'' h4
      in \<lparr>resp_status = resp_status response,
          resp_statusText = resp_statusText response,
          resp_headers = h5,
          resp_body = Some responseData\<rparr>)"

subsection \<open>The worker (\<^verbatim>\<open>/fly-api/\<close>, path kept, redirects followed)\<close>

definition worker_modifiedRequest :: "request \<Rightarrow> url \<Rightarrow> fetch_request" where
  "worker_modifiedRequest request u =
     (let backendUrl = ''https://laclipasa-backend.fly.dev'' @ pathname u @ search u
      in \<lparr>fr_url = backendUrl, fr_method = req_method request,
          fr_headers = req_headers request, fr_body = req_body request,
          fr_redirect = RedirectFollow\<rparr>)"

definition worker_handleApiRequest ::
    "client \<Rightarrow> request \<Rightarrow> url \<Rightarrow> response \<times> fetch_request list" where
  "worker_handleApiRequest fetch request u =
     (let modifiedRequest = worker_modifiedRequest request u;
          response = fetch modifiedRequest
      in (rebuildResponse response request u, [modifiedRequest]))"

definition worker_fetch :: "client \<Rightarrow> request \<Rightarrow> response \<times> fetch_request list" where
  "worker_fetch fetch request =
     (let u = req_url request
      in if startsWith (pathname u) ''/fly-api/''
         then worker_handleApiRequest fetch request u
         else (text_response
                 ''This is a proxy worker. API requests should be sent to /fly-api/...'', []))"

subsection \<open>The template (\<^verbatim>\<open>/api/\<close>, path kept, redirects followed)\<close>

definition template_modifiedRequest :: "request \<Rightarrow> url \<Rightarrow> fetch_request" where
  "template_modifiedRequest request u =
     (let backendUrl = ''https://your-app-name.fly.dev'' @ pathname u @ search u
      in \<lparr>fr_url = backendUrl, fr_method = req_method request,
          fr_headers = req_headers request, fr_body = req_body request,
          fr_redirect = RedirectFollow\<rparr>)"

definition template_handleApiRequest ::
    "client \<Rightarrow> request \<Rightarrow> url \<Rightarrow> response \<times> fetch_request list" where
  "template_handleApiRequest fetch request u =
     (let modifiedRequest = template_modifiedRequest request u;
          response = fetch modifiedRequest
      in (rebuildResponse response request u, [modifiedRequest]))"

definition template_fetch :: "client \<Rightarrow> request \<Rightarrow> response \<times> fetch_request list" where
  "template_fetch fetch request =
     (let u = req_url request
      in if startsWith (pathname u) ''/api/''
         then template_handleApiRequest fetch request u
         else (text_response
                 ''This is a proxy worker. API requests should be sent to /api/...'', []))"

subsection \<open>The Pages function (\<^verbatim>\<open>/fly-api\<close> stripped, redirects passed through)\<close>

definition pages_modifiedRequest :: "request \<Rightarrow> url \<Rightarrow> fetch_request" where
  "pages_modifiedRequest request u =
     (let backendUrl = ''https://laclipasa-backend.fly.dev''
                         @ str_replace ''/fly-api'' [] (pathname u) @ search u
      in \<lparr>fr_url = backendUrl, fr_method = req_method request,
          fr_headers = req_headers request, fr_body = req_body request,
          fr_redirect = RedirectManual\<rparr>)"

definition pages_handleApiRequest ::
    "client \<Rightarrow> request \<Rightarrow> url \<Rightarrow> response \<times> fetch_request list" where
  "pages_handleApiRequest fetch request u =
     (let modifiedRequest = pages_modifiedRequest request u;
          response = fetch modifiedRequest
      in if resp_status response \<ge> 300 \<and> resp_status response < 400
            \<and> headers_has ''Location'' (resp_headers response)
         then (\<lparr>resp_status = resp_status response,
                 resp_statusText = resp_statusText response,
                 resp_headers = resp_headers response,
                 resp_body = None\<rparr>, [modifiedRequest])
         else (rebuildResponse response request u, [modifiedRequest]))"

text \<open>\<^verbatim>\<open>fetch(request)\<close> on the inbound request itself: its own URL, method,
  headers, body and redirect mode.\<close>

definition pages_handleRequest :: "client \<Rightarrow> request \<Rightarrow> response \<times> fetch_request list" where
  "pages_handleRequest fetch request =
     (let u = req_url request
      in if startsWith (pathname u) ''/fly-api/''
         then pages_handleApiRequest fetch request u
         else (let passed = \<lparr>fr_url = href u, fr_method = req_method request,
                              fr_headers = req_headers request, fr_body = req_body request,
                              fr_redirect = req_redirect request\<rparr>
               in (fetch passed, [passed])))"

section \<open>Vocabulary of the claims\<close>

text \<open>The test of the Pages function for a redirect it passes through.\<close>

definition is_redirect :: "response \<Rightarrow> bool" where
  "is_redirect response =
     (resp_status response \<ge> 300 \<and> resp_status response < 400
      \<and> headers_has ''Location'' (resp_headers response))"

text \<open>A header list carries the four CORS headers for an origin: each name has exactly
  one value, the expected one, and \<^verbatim>\<open>get\<close> returns it.\<close>

definition carries_cors :: "string \<Rightarrow> headers \<Rightarrow> bool" where
  "carries_cors org h =
     (headers_getAll ''Access-Control-Allow-Origin'' h = [org]
      \<and> headers_get ''Access-Control-Allow-Origin'' h = Some org
      \<and> headers_getAll ''Access-Control-Allow-Credentials'' h = [''true'']
      \<and> headers_get ''Access-Control-Allow-Credentials'' h = Some ''true''
      \<and> headers_getAll ''Access-Control-Allow-Methods'' h = [''GET, POST, PUT, DELETE, OPTIONS'']
      \<and> headers_get ''Access-Control-Allow-Methods'' h = Some ''GET, POST, PUT, DELETE, OPTIONS''
      \<and> headers_getAll ''Access-Control-Allow-Headers'' h = [''Content-Type, Authorization'']
      \<and> headers_get ''Access-Control-Allow-Headers'' h = Some ''Content-Type, Authorization'')"

text \<open>A header name the rebuild writes itself: a cookie or one of the four CORS names.\<close>

definition written_name :: "string \<Rightarrow> bool" where
  "written_name n =
     (toLowerCase n = ''set-cookie''
      \<or> toLowerCase n = ''access-control-allow-origin''
      \<or> toLowerCase n = ''access-control-allow-credentials''
      \<or> toLowerCase n = ''access-control-allow-methods''
      \<or> toLowerCase n = ''access-control-allow-headers'')"

section \<open>Concrete inputs\<close>

text \<open>The request of the repository's tests, \<^verbatim>\<open>http://example.com/fly-api/login\<close>,
  and its URL.\<close>

definition example_url :: url where
  "example_url = \<lparr>scheme = ''http'', hostname = ''example.com'', port = None,
     pathname = ''/fly-api/login'', query = []\<rparr>"

text \<open>\<^verbatim>\<open>http://a;b/fly-api/login\<close>: a semicolon is no forbidden host code point
  of the URL standard, so the parser keeps it in the host name.\<close>

definition semicolon_url :: url where
  "semicolon_url = \<lparr>scheme = ''http'', hostname = ''a;b'', port = None,
     pathname = ''/fly-api/login'', query = []\<rparr>"

text \<open>\<^verbatim>\<open>http://example.com/fly-api/users\<close>, the request of the test that checks
  the upstream URL, and \<^verbatim>\<open>http://example.com/\<close>, the request of the test for the
  fallback.\<close>

definition example_request :: request where
  "example_request = \<lparr>req_url = example_url, req_method = ''GET'', req_headers = [],
     req_body = None, req_redirect = RedirectManual\<rparr>"

definition users_request :: request where
  "users_request =
     \<lparr>req_url = \<lparr>scheme = ''http'', hostname = ''example.com'', port = None,
                 pathname = ''/fly-api/users'', query = []\<rparr>,
      req_method = ''GET'', req_headers = [], req_body = None, req_redirect = RedirectManual\<rparr>"

definition search_request :: request where
  "search_request =
     \<lparr>req_url = \<lparr>scheme = ''https'', hostname = ''example.com'', port = Some ''8443'',
                 pathname = ''/fly-api/items'', query = ''q=1&r=2''\<rparr>,
      req_method = ''GET'', req_headers = [], req_body = None, req_redirect = RedirectManual\<rparr>"

definition home_request :: request where
  "home_request =
     \<lparr>req_url = \<lparr>scheme = ''http'', hostname = ''example.com'', port = None,
                 pathname = ''/'', query = []\<rparr>,
      req_method = ''GET'', req_headers = [], req_body = None, req_redirect = RedirectManual\<rparr>"

text \<open>An upstream that answers 200 with three cookie headers, the second one empty, a
  content type and a CORS origin of its own.\<close>

definition cookie_response :: response where
  "cookie_response =
     \<lparr>resp_status = 200, resp_statusText = ''OK'',
      resp_headers =
        [(''Content-Type'', ''application/json''),
         (''Set-Cookie'', ''auth_token=abc123; Path=/; Domain=laclipasa-backend.fly.dev''),
         (''Set-Cookie'', []),
         (''Access-Control-Allow-Origin'', ''*''),
         (''Set-Cookie'', ''session=xyz789; Path=/'')],
      resp_body = Some ''{}''\<rparr>"

definition cookie_client :: client where
  "cookie_client r = cookie_response"

text \<open>An upstream that answers 302 with a location and a cookie, and one that answers
  304 without a location.\<close>

definition redirect_response :: response where
  "redirect_response =
     \<lparr>resp_status = 302, resp_statusText = ''Found'',
      resp_headers = [(''Location'', ''https://x/y''), (''Set-Cookie'', ''a=b; Domain=x'')],
      resp_body = None\<rparr>"

definition redirect_client :: client where
  "redirect_client r = redirect_response"

definition not_modified_response :: response where
  "not_modified_response =
     \<lparr>resp_status = 304, resp_statusText = ''Not Modified'',
      resp_headers = [(''ETag'', ''W/1'')], resp_body = None\<rparr>"

definition not_modified_client :: client where
  "not_modified_client r = not_modified_response"

section \<open>Lemmas on strings\<close>

subsection \<open>Characters and case\<close>

lemma of_char_lowerChar:
  "(of_char (lowerChar c) :: nat) =
     (if (65 \<le> (of_char c :: nat) \<and> (of_char c :: nat) \<le> 90) \<or>
         (192 \<le> (of_char c :: nat) \<and> (of_char c :: nat) \<le> 222 \<and> (of_char c :: nat) \<noteq> 215)
      then of_char c + 32 else of_char c)"
  by (simp add: lowerChar_def Let_def)

lemma lowerChar_equals_sign: "(lowerChar c = CHR ''='') = (c = CHR ''='')"
proof
  assume "lowerChar c = CHR ''=''"
  then have "(of_char (lowerChar c) :: nat) = of_char (CHR ''='')" by simp
  then have "(of_char c :: nat) = of_char (CHR ''='')"
    by (simp add: of_char_lowerChar split: if_splits)
  then show "c = CHR ''=''" by (simp only: of_char_eq_iff)
next
  assume "c = CHR ''=''"
  then show "lowerChar c = CHR ''=''" by (simp add: lowerChar_def)
qed

lemma lowerChar_idem: "lowerChar (lowerChar c) = lowerChar c"
proof -
  have "(of_char (lowerChar (lowerChar c)) :: nat) = of_char (lowerChar c)"
    by (simp add: of_char_lowerChar)
  then show ?thesis by (simp only: of_char_eq_iff)
qed

lemma toLowerCase_idem: "toLowerCase (toLowerCase s) = toLowerCase s"
  by (simp add: toLowerCase_def lowerChar_idem)

lemma toLowerCase_append: "toLowerCase (a @ b) = toLowerCase a @ toLowerCase b"
  by (simp add: toLowerCase_def)

lemma toLowerCase_Cons: "toLowerCase (c # s) = lowerChar c # toLowerCase s"
  by (simp add: toLowerCase_def)

lemma toLowerCase_Nil: "toLowerCase [] = []"
  by (simp add: toLowerCase_def)

lemma length_toLowerCase: "length (toLowerCase s) = length s"
  by (simp add: toLowerCase_def)

lemma lower_Domain: "toLowerCase ''Domain='' = ''domain=''"
  by code_simp

lemma lower_SameSiteNone: "toLowerCase ''SameSite=None'' = ''samesite=none''"
  by code_simp

lemma lower_Secure: "toLowerCase ''Secure'' = ''secure''"
  by code_simp

subsection \<open>split, join and trim\<close>

lemma str_split_nonempty: "str_split sep s \<noteq> []"
  by (induction s) (auto split: list.splits)

lemma str_split_no_sep: "seg \<in> set (str_split sep s) \<Longrightarrow> sep \<notin> set seg"
  by (induction s arbitrary: seg) (auto split: if_splits list.splits)

lemma str_split_single: "sep \<notin> set p \<Longrightarrow> str_split sep p = [p]"
  by (induction p) auto

lemma str_split_append:
  "sep \<notin> set p \<Longrightarrow> str_split sep (p @ sep # rest) = p # str_split sep rest"
  by (induction p) (auto split: list.splits simp: str_split_nonempty)

lemma hd_str_split: "hd (str_split sep s) = takeWhile (\<lambda>c. c \<noteq> sep) s"
  by (induction s) (auto split: list.splits simp: str_split_nonempty)

lemma set_trim: "set (trim s) \<subseteq> set s"
proof -
  have "set (trim s) \<subseteq> set (dropWhile isWhiteSpace s)"
    unfolding trim_def using set_dropWhileD by fastforce
  also have "\<dots> \<subseteq> set s" using set_dropWhileD by fastforce
  finally show ?thesis .
qed

lemma dropWhile_trimmed: "trimmed p \<Longrightarrow> dropWhile isWhiteSpace p = p"
  by (cases p) (auto simp: trimmed_def)

lemma trimmed_rev: "trimmed p \<Longrightarrow> trimmed (rev p)"
  by (auto simp: trimmed_def hd_rev last_rev)

lemma trim_id: "trimmed p \<Longrightarrow> trim p = p"
  using dropWhile_trimmed[of p] dropWhile_trimmed[OF trimmed_rev, of p]
  by (simp add: trim_def)

lemma trim_space: "trim (CHR '' '' # p) = trim p"
  by (simp add: trim_def isWhiteSpace_def)

lemma dropWhile_hd: "dropWhile P xs \<noteq> [] \<Longrightarrow> \<not> P (hd (dropWhile P xs))"
  by (metis hd_dropWhile)

lemma last_dropWhile: "dropWhile P xs \<noteq> [] \<Longrightarrow> last (dropWhile P xs) = last xs"
proof -
  assume ne: "dropWhile P xs \<noteq> []"
  have "last xs = last (takeWhile P xs @ dropWhile P xs)" by simp
  also have "\<dots> = last (dropWhile P xs)" using ne by (simp only: last_append if_False)
  finally show ?thesis by simp
qed

lemma trimmed_trim: "trimmed (trim s)"
proof (cases "trim s = []")
  case True
  then show ?thesis by (simp add: trimmed_def)
next
  case False
  let ?t = "dropWhile isWhiteSpace s"
  let ?r = "dropWhile isWhiteSpace (rev ?t)"
  from False have r: "?r \<noteq> []" by (simp add: trim_def)
  have t: "?t \<noteq> []"
  proof
    assume e: "?t = []"
    have "?r = []" by (simp only: e rev.simps dropWhile.simps)
    with r show False by contradiction
  qed
  have "\<not> isWhiteSpace (hd ?r)" using r by (rule dropWhile_hd)
  then have l: "\<not> isWhiteSpace (last (trim s))" using r by (simp add: trim_def last_rev)
  have "last ?r = last (rev ?t)" using r by (rule last_dropWhile)
  then have "hd (trim s) = hd ?t" using r t by (simp add: trim_def hd_rev last_rev)
  moreover have "\<not> isWhiteSpace (hd ?t)" using t by (rule dropWhile_hd)
  ultimately show ?thesis using l by (simp add: trimmed_def)
qed

lemma str_join_two: "ps \<noteq> [] \<Longrightarrow> str_join sep (p # ps) = p @ sep @ str_join sep ps"
  by (cases ps) auto

lemma split_join:
  "ps \<noteq> [] \<Longrightarrow> (\<forall>p \<in> set ps. CHR '';'' \<notin> set p) \<Longrightarrow>
   str_split CHR '';'' (str_join ''; '' ps) = hd ps # map (\<lambda>p. CHR '' '' # p) (tl ps)"
proof (induction ps)
  case Nil
  then show ?case by simp
next
  case (Cons p ps)
  show ?case
  proof (cases ps)
    case Nil
    with Cons.prems show ?thesis by (simp add: str_split_single)
  next
    case (Cons q qs)
    with Cons.prems Cons.IH have ih:
      "str_split CHR '';'' (str_join ''; '' ps) = hd ps # map (\<lambda>p. CHR '' '' # p) (tl ps)"
      by simp
    have "str_join ''; '' (p # ps) = p @ CHR '';'' # (CHR '' '' # str_join ''; '' ps)"
      using Cons by simp
    moreover have "CHR '';'' \<notin> set p" using Cons.prems by simp
    ultimately have "str_split CHR '';'' (str_join ''; '' (p # ps))
        = p # str_split CHR '';'' (CHR '' '' # str_join ''; '' ps)"
      using str_split_append[of "CHR '';''" p "CHR '' '' # str_join ''; '' ps"] by simp
    also have "str_split CHR '';'' (CHR '' '' # str_join ''; '' ps)
        = (CHR '' '' # hd ps) # map (\<lambda>p. CHR '' '' # p) (tl ps)"
      using ih by simp
    finally show ?thesis using Cons by simp
  qed
qed

lemma segments_join:
  assumes "ps \<noteq> []" and "\<forall>p \<in> set ps. CHR '';'' \<notin> set p \<and> trimmed p"
  shows "cookie_segments (str_join ''; '' ps) = ps"
proof -
  have "cookie_segments (str_join ''; '' ps)
      = trim (hd ps) # map (\<lambda>p. trim (CHR '' '' # p)) (tl ps)"
    using assms by (simp add: cookie_segments_def split_join comp_def)
  also have "\<dots> = trim (hd ps) # map trim (tl ps)" by (simp add: trim_space)
  also have "\<dots> = map trim ps" using assms(1) by (cases ps) auto
  also have "\<dots> = ps" using assms(2) by (simp add: trim_id map_idI)
  finally show ?thesis .
qed

lemma str_join_nonempty: "length ps \<ge> 2 \<Longrightarrow> sep \<noteq> [] \<Longrightarrow> str_join sep ps \<noteq> []"
  by (cases ps; cases "tl ps") auto

section \<open>Lemmas on the cookie rewrite\<close>

subsection \<open>The three tests exclude each other\<close>

lemma isDomain_not_SameSite: "isDomain p \<Longrightarrow> \<not> isSameSite p"
  by (cases "toLowerCase p") (auto simp: isDomain_def isSameSite_def startsWith_def)

lemma isDomain_not_Secure: "isDomain p \<Longrightarrow> \<not> isSecure p"
  by (auto simp: isDomain_def isSecure_def startsWith_def)

lemma isSameSite_not_Secure: "isSameSite p \<Longrightarrow> \<not> isSecure p"
  by (auto simp: isSameSite_def isSecure_def startsWith_def)

lemma isDomain_pushed: "isDomain (''Domain='' @ h)"
proof -
  have "toLowerCase (''Domain='' @ h) = ''domain='' @ toLowerCase h"
    by (simp only: toLowerCase_append lower_Domain)
  then show ?thesis by (simp add: isDomain_def startsWith_def)
qed

lemma isSameSite_pushed: "isSameSite ''SameSite=None''"
  by (simp add: isSameSite_def startsWith_def lower_SameSiteNone)

lemma isSecure_pushed: "isSecure ''Secure''"
  by (simp add: isSecure_def lower_Secure)

lemma isDomain_rewrite_part: "isDomain (rewrite_part u p) = isDomain p"
  using isDomain_pushed[of "hostname u"] isDomain_not_SameSite[OF isDomain_pushed, of "hostname u"]
    isDomain_not_SameSite[of "''SameSite=None''"] isSameSite_pushed
    isDomain_not_Secure[of "''Secure''"] isSecure_pushed
  by (auto simp: rewrite_part_def)

lemma isSameSite_rewrite_part: "isSameSite (rewrite_part u p) = isSameSite p"
  using isDomain_not_SameSite[OF isDomain_pushed, of "hostname u"] isDomain_not_SameSite[of p]
    isSameSite_pushed isSameSite_not_Secure[of "''Secure''"] isSecure_pushed
  by (auto simp: rewrite_part_def)

lemma isSecure_rewrite_part: "isSecure (rewrite_part u p) = isSecure p"
  using isDomain_not_Secure[OF isDomain_pushed, of "hostname u"] isDomain_not_Secure[of p]
    isSameSite_not_Secure[OF isSameSite_pushed] isSameSite_not_Secure[of p] isSecure_pushed
  by (auto simp: rewrite_part_def)

lemma rewrite_part_idem: "rewrite_part u (rewrite_part u p) = rewrite_part u p"
proof -
  have "rewrite_part u (rewrite_part u p) =
     (if isDomain p then ''Domain='' @ hostname u
      else if isSameSite p then ''SameSite=None''
      else if isSecure p then ''Secure'' else rewrite_part u p)"
    by (subst rewrite_part_def)
       (simp only: isDomain_rewrite_part isSameSite_rewrite_part isSecure_rewrite_part)
  then show ?thesis by (simp add: rewrite_part_def)
qed

subsection \<open>The loop as a map, the flags as searches\<close>

lemma loop_body_parts:
  "newCookieParts (loop_body u st p) = newCookieParts st @ [rewrite_part u p]"
  by (simp add: loop_body_def rewrite_part_def isDomain_def isSameSite_def isSecure_def Let_def)

lemma loop_body_hasDomain: "hasDomain (loop_body u st p) = (hasDomain st \<or> isDomain p)"
  by (simp add: loop_body_def isDomain_def Let_def)

lemma loop_body_hasSameSite: "hasSameSite (loop_body u st p) = (hasSameSite st \<or> isSameSite p)"
  using isDomain_not_SameSite[of p]
  by (auto simp add: loop_body_def isDomain_def isSameSite_def Let_def)

lemma loop_body_hasSecure: "hasSecure (loop_body u st p) = (hasSecure st \<or> isSecure p)"
  using isDomain_not_Secure[of p] isSameSite_not_Secure[of p]
  by (auto simp add: loop_body_def isDomain_def isSameSite_def isSecure_def Let_def)

lemma loop_parts:
  "newCookieParts (foldl (loop_body u) st ps) = newCookieParts st @ map (rewrite_part u) ps"
  by (induction ps arbitrary: st) (simp_all add: loop_body_parts)

lemma loop_hasDomain:
  "hasDomain (foldl (loop_body u) st ps) = (hasDomain st \<or> list_ex isDomain ps)"
  by (induction ps arbitrary: st) (simp_all add: loop_body_hasDomain)

lemma loop_hasSameSite:
  "hasSameSite (foldl (loop_body u) st ps) = (hasSameSite st \<or> list_ex isSameSite ps)"
  by (induction ps arbitrary: st) (simp_all add: loop_body_hasSameSite)

lemma loop_hasSecure:
  "hasSecure (foldl (loop_body u) st ps) = (hasSecure st \<or> list_ex isSecure ps)"
  by (induction ps arbitrary: st) (simp_all add: loop_body_hasSecure)

lemma add_missing_parts:
  "newCookieParts (add_missing u st) =
     newCookieParts st @
     (if hasDomain st then [] else [''Domain='' @ hostname u]) @
     (if hasSameSite st then [] else [''SameSite=None'']) @
     (if hasSecure st then [] else [''Secure''])"
  by (simp add: add_missing_def Let_def)

lemma final_parts_eq:
  "final_parts cookie u =
     hd (cookie_segments cookie) # map (rewrite_part u) (tl (cookie_segments cookie))
       @ missing_parts u (tl (cookie_segments cookie))"
  by (simp add: final_parts_def Let_def add_missing_parts loop_parts loop_hasDomain
      loop_hasSameSite loop_hasSecure missing_parts_def)

lemma length_final_parts: "length (final_parts cookie u) \<ge> 2"
proof (cases "tl (cookie_segments cookie)")
  case Nil
  then show ?thesis by (simp add: final_parts_eq missing_parts_def)
next
  case (Cons a as)
  then show ?thesis by (simp add: final_parts_eq)
qed

lemma modifyCookie_not_empty: "modifyCookie cookie u \<noteq> Some []"
  using str_join_nonempty[OF length_final_parts, of "''; ''" cookie u]
  by (simp add: modifyCookie_def)

subsection \<open>Key and value\<close>

lemma key_prefix:
  assumes "sep \<notin> set k"
  shows "(take (Suc (length k)) s = k @ [sep]) = (sep \<in> set s \<and> takeWhile (\<lambda>c. c \<noteq> sep) s = k)"
proof
  assume t: "take (Suc (length k)) s = k @ [sep]"
  have "s = (k @ [sep]) @ drop (Suc (length k)) s"
    using append_take_drop_id[of "Suc (length k)" s] t by simp
  then obtain r where s: "s = k @ sep # r" by simp
  have "takeWhile (\<lambda>c. c \<noteq> sep) (k @ sep # r) = k"
    using assms by (induction k) auto
  with s show "sep \<in> set s \<and> takeWhile (\<lambda>c. c \<noteq> sep) s = k" by simp
next
  assume a: "sep \<in> set s \<and> takeWhile (\<lambda>c. c \<noteq> sep) s = k"
  then have ne: "dropWhile (\<lambda>c. c \<noteq> sep) s \<noteq> []" by auto
  then have "hd (dropWhile (\<lambda>c. c \<noteq> sep) s) = sep" using hd_dropWhile[of "\<lambda>c. c \<noteq> sep" s] by simp
  with ne obtain r where "dropWhile (\<lambda>c. c \<noteq> sep) s = sep # r"
    by (cases "dropWhile (\<lambda>c. c \<noteq> sep) s") auto
  then have "s = k @ sep # r" using a takeWhile_dropWhile_id[of "\<lambda>c. c \<noteq> sep" s] by simp
  then show "take (Suc (length k)) s = k @ [sep]" by simp
qed

lemma takeWhile_toLowerCase:
  "takeWhile (\<lambda>c. c \<noteq> CHR ''='') (toLowerCase s) = toLowerCase (takeWhile (\<lambda>c. c \<noteq> CHR ''='') s)"
  by (simp add: toLowerCase_def takeWhile_map comp_def lowerChar_equals_sign)

lemma equals_in_toLowerCase: "(CHR ''='' \<in> set (toLowerCase s)) = (CHR ''='' \<in> set s)"
proof -
  have "(CHR ''='' = lowerChar c) = (c = CHR ''='')" for c
    using lowerChar_equals_sign[of c] by auto
  then show ?thesis by (induction s) (auto simp: toLowerCase_Cons toLowerCase_Nil)
qed

lemma isDomain_spec: "isDomain p = spec_is_domain p"
  using key_prefix[of "CHR ''=''" "''domain''" "toLowerCase p"]
  by (simp add: isDomain_def spec_is_domain_def spec_has_value_def spec_key_def startsWith_def
      takeWhile_toLowerCase equals_in_toLowerCase)

lemma isSameSite_spec: "isSameSite p = spec_is_samesite p"
  using key_prefix[of "CHR ''=''" "''samesite''" "toLowerCase p"]
  by (simp add: isSameSite_def spec_is_samesite_def spec_has_value_def spec_key_def
      startsWith_def takeWhile_toLowerCase equals_in_toLowerCase)

lemma isSecure_spec: "isSecure p = spec_is_secure p"
proof -
  have "CHR ''='' \<notin> set p" if "toLowerCase p = ''secure''"
  proof -
    from that have "CHR ''='' \<notin> set (toLowerCase p)" by simp
    then show ?thesis using equals_in_toLowerCase[of p] by blast
  qed
  then show ?thesis
    unfolding isSecure_def spec_is_secure_def spec_has_value_def by blast
qed

lemma rewrite_part_spec: "rewrite_part u = spec_rewrite_segment (hostname u)"
  by (rule ext)
     (simp add: rewrite_part_def spec_rewrite_segment_def isDomain_spec isSameSite_spec
       isSecure_spec)

lemma missing_parts_spec: "missing_parts u = spec_appended (hostname u)"
proof -
  have "isDomain = spec_is_domain" "isSameSite = spec_is_samesite" "isSecure = spec_is_secure"
    by (rule ext, rule isDomain_spec, rule ext, rule isSameSite_spec, rule ext, rule isSecure_spec)
  then show ?thesis by (intro ext) (simp add: missing_parts_def spec_appended_def)
qed

subsection \<open>Counting the attributes\<close>

lemma rewrite_part_Domain: "isDomain p \<Longrightarrow> rewrite_part u p = ''Domain='' @ hostname u"
  by (simp add: rewrite_part_def)

lemma rewrite_part_SameSite: "isSameSite p \<Longrightarrow> rewrite_part u p = ''SameSite=None''"
  using isDomain_not_SameSite[of p] by (auto simp: rewrite_part_def)

lemma rewrite_part_Secure: "isSecure p \<Longrightarrow> rewrite_part u p = ''Secure''"
  using isDomain_not_Secure[of p] isSameSite_not_Secure[of p] by (auto simp: rewrite_part_def)

lemma rewrite_part_Other: "isOther p \<Longrightarrow> rewrite_part u p = p"
  by (simp add: rewrite_part_def isOther_def)

lemma isOther_rewrite_part: "isOther (rewrite_part u p) = isOther p"
  by (simp add: isOther_def isDomain_rewrite_part isSameSite_rewrite_part isSecure_rewrite_part)

lemma filter_Domain_loop:
  "filter isDomain (map (rewrite_part u) ps)
     = replicate (length (filter isDomain ps)) (''Domain='' @ hostname u)"
  by (induction ps) (simp_all add: isDomain_rewrite_part rewrite_part_Domain)

lemma filter_SameSite_loop:
  "filter isSameSite (map (rewrite_part u) ps)
     = replicate (length (filter isSameSite ps)) ''SameSite=None''"
  by (induction ps) (simp_all add: isSameSite_rewrite_part rewrite_part_SameSite)

lemma filter_Secure_loop:
  "filter isSecure (map (rewrite_part u) ps)
     = replicate (length (filter isSecure ps)) ''Secure''"
  by (induction ps) (simp_all add: isSecure_rewrite_part rewrite_part_Secure)

lemma filter_Other_loop: "filter isOther (map (rewrite_part u) ps) = filter isOther ps"
  by (induction ps) (simp_all add: isOther_rewrite_part rewrite_part_Other)

lemma pushed_classes:
  "\<not> isSameSite (''Domain='' @ h)" "\<not> isSecure (''Domain='' @ h)"
  "\<not> isDomain ''SameSite=None''" "\<not> isSecure ''SameSite=None''"
  "\<not> isDomain ''Secure''" "\<not> isSameSite ''Secure''"
  using isDomain_not_SameSite[OF isDomain_pushed, of h] isDomain_not_Secure[OF isDomain_pushed, of h]
    isDomain_not_SameSite[of "''SameSite=None''"] isSameSite_not_Secure[OF isSameSite_pushed]
    isDomain_not_Secure[of "''Secure''"] isSameSite_not_Secure[of "''Secure''"]
    isSameSite_pushed isSecure_pushed
  by blast+

lemma filter_Domain_missing:
  "filter isDomain (missing_parts u ps)
     = (if list_ex isDomain ps then [] else [''Domain='' @ hostname u])"
  using isDomain_pushed[of "hostname u"] pushed_classes(3,5)
  by (simp add: missing_parts_def)

lemma filter_SameSite_missing:
  "filter isSameSite (missing_parts u ps)
     = (if list_ex isSameSite ps then [] else [''SameSite=None''])"
  using isSameSite_pushed pushed_classes(1)[of "hostname u"] pushed_classes(6)
  by (simp add: missing_parts_def)

lemma filter_Secure_missing:
  "filter isSecure (missing_parts u ps)
     = (if list_ex isSecure ps then [] else [''Secure''])"
  using isSecure_pushed pushed_classes(2)[of "hostname u"] pushed_classes(4)
  by (simp add: missing_parts_def)

lemma filter_Other_missing: "filter isOther (missing_parts u ps) = []"
  using isDomain_pushed[of "hostname u"] isSameSite_pushed isSecure_pushed
  by (simp add: missing_parts_def isOther_def)

lemma replicate_max_one:
  "replicate (length (filter P ps)) x @ (if list_ex P ps then [] else [x])
     = replicate (max 1 (length (filter P ps))) x"
proof (cases "filter P ps")
  case Nil
  then have "\<not> list_ex P ps" by (simp add: list_ex_iff filter_empty_conv)
  with Nil show ?thesis by simp
next
  case (Cons a as)
  then have "list_ex P ps"
    by (metis filter_empty_conv list.distinct(1) list_ex_iff)
  with Cons show ?thesis by (simp add: max_def)
qed

lemma tl_final_parts:
  "tl (final_parts cookie u)
     = map (rewrite_part u) (attribute_segments cookie) @ missing_parts u (attribute_segments cookie)"
  by (simp add: final_parts_eq attribute_segments_def)

lemma hd_final_parts: "hd (final_parts cookie u) = hd (cookie_segments cookie)"
  by (simp add: final_parts_eq)

lemma count_Domain:
  "filter isDomain (tl (final_parts cookie u))
     = replicate (max 1 (length (filter isDomain (attribute_segments cookie))))
         (''Domain='' @ hostname u)"
  by (simp only: tl_final_parts filter_append filter_Domain_loop filter_Domain_missing
      replicate_max_one)

lemma count_SameSite:
  "filter isSameSite (tl (final_parts cookie u))
     = replicate (max 1 (length (filter isSameSite (attribute_segments cookie)))) ''SameSite=None''"
  by (simp only: tl_final_parts filter_append filter_SameSite_loop filter_SameSite_missing
      replicate_max_one)

lemma count_Secure:
  "filter isSecure (tl (final_parts cookie u))
     = replicate (max 1 (length (filter isSecure (attribute_segments cookie)))) ''Secure''"
  by (simp only: tl_final_parts filter_append filter_Secure_loop filter_Secure_missing
      replicate_max_one)

lemma keep_Other:
  "filter isOther (tl (final_parts cookie u)) = filter isOther (attribute_segments cookie)"
  by (simp add: tl_final_parts filter_Other_loop filter_Other_missing)

subsection \<open>Splitting the output again\<close>

lemma segment_wellformed:
  "p \<in> set (cookie_segments cookie) \<Longrightarrow> CHR '';'' \<notin> set p \<and> trimmed p"
  using set_trim str_split_no_sep by (fastforce simp: cookie_segments_def trimmed_trim)

lemma cookie_segments_nonempty: "cookie_segments cookie \<noteq> []"
  by (simp add: cookie_segments_def str_split_nonempty)

lemma pushed_Domain_wellformed:
  assumes "hostname_ok h"
  shows "CHR '';'' \<notin> set (''Domain='' @ h) \<and> trimmed (''Domain='' @ h)"
proof -
  have "\<not> isWhiteSpace CHR ''D''" "\<not> isWhiteSpace CHR ''=''"
    by (simp_all add: isWhiteSpace_def)
  then have "trimmed (''Domain='' @ h)"
    using assms by (cases "h = []") (simp_all add: trimmed_def hostname_ok_def)
  then show ?thesis using assms by (simp add: hostname_ok_def)
qed

lemma pushed_wellformed:
  "CHR '';'' \<notin> set ''SameSite=None'' \<and> trimmed ''SameSite=None''"
  "CHR '';'' \<notin> set ''Secure'' \<and> trimmed ''Secure''"
  by (simp_all add: trimmed_def isWhiteSpace_def)

lemma rewrite_part_wellformed:
  assumes "hostname_ok (hostname u)" and "CHR '';'' \<notin> set p \<and> trimmed p"
  shows "CHR '';'' \<notin> set (rewrite_part u p) \<and> trimmed (rewrite_part u p)"
  using pushed_Domain_wellformed[OF assms(1)] pushed_wellformed assms(2)
  unfolding rewrite_part_def by presburger

lemma final_parts_wellformed:
  assumes "hostname_ok (hostname u)" and "p \<in> set (final_parts cookie u)"
  shows "CHR '';'' \<notin> set p \<and> trimmed p"
proof -
  let ?segs = "cookie_segments cookie"
  have segs: "?segs = hd ?segs # tl ?segs" using cookie_segments_nonempty by simp
  from assms(2) consider "p = hd ?segs" | q where "q \<in> set (tl ?segs)" "p = rewrite_part u q"
    | "p \<in> set (missing_parts u (tl ?segs))"
    by (auto simp: final_parts_eq)
  then show ?thesis
  proof cases
    case 1
    then have "p \<in> set ?segs" using cookie_segments_nonempty by simp
    then show ?thesis by (rule segment_wellformed)
  next
    case 2
    then have "q \<in> set ?segs" using segs by (metis list.set_intros(2))
    then have "CHR '';'' \<notin> set q \<and> trimmed q" by (rule segment_wellformed)
    with 2 assms(1) show ?thesis using rewrite_part_wellformed by blast
  next
    case 3
    then have "p = ''Domain='' @ hostname u \<or> p = ''SameSite=None'' \<or> p = ''Secure''"
      by (auto simp: missing_parts_def split: if_splits)
    then show ?thesis
      using pushed_Domain_wellformed[OF assms(1)] pushed_wellformed by blast
  qed
qed

lemma final_parts_nonempty: "final_parts cookie u \<noteq> []"
  by (simp add: final_parts_eq)

lemma resplit_final_parts:
  assumes "hostname_ok (hostname u)"
  shows "cookie_segments (str_join ''; '' (final_parts cookie u)) = final_parts cookie u"
  using final_parts_wellformed[OF assms] by (intro segments_join final_parts_nonempty) blast

lemma modifyCookie_Some:
  "modifyCookie cookie u = Some s \<Longrightarrow> cookie \<noteq> [] \<and> s = str_join ''; '' (final_parts cookie u)"
  by (auto simp: modifyCookie_def split: if_splits)

lemma str_join_starts: "take (length p) (str_join sep (p # ps)) = p"
  by (cases ps) auto

section \<open>The claims on the cookie rewrite\<close>

text \<open>
  Claim C3. The loop of \<^verbatim>\<open>modifyCookie\<close> with its three flags computes what the
  specification describes: the main part, then every segment with a Domain key and a value
  replaced by Domain= and the host name of the request URL, every segment with a SameSite
  key and a value replaced by SameSite=None, a bare Secure token kept as Secure, every
  other segment kept, then those of the three that no segment had, in the order Domain,
  SameSite, Secure, all joined with a semicolon and a space. Keys are compared in any
  casing. The empty input gives nothing on both sides.
\<close>

theorem modifyCookie_refines_spec:
  "modifyCookie cookie u = spec_rewrite cookie (hostname u)"
  by (simp add: modifyCookie_def spec_rewrite_def final_parts_eq cookie_segments_def
      rewrite_part_spec missing_parts_spec Let_def)

theorem modifyCookie_refines_spec_witness:
  "modifyCookie ''auth=abc; Path=/; Domain=backend.example; SameSite=Lax'' example_url
     = Some ''auth=abc; Path=/; Domain=example.com; SameSite=None; Secure''
   \<and> spec_rewrite ''auth=abc; Path=/; Domain=backend.example; SameSite=Lax'' ''example.com''
     = Some ''auth=abc; Path=/; Domain=example.com; SameSite=None; Secure''"
proof -
  have a: "modifyCookie ''auth=abc; Path=/; Domain=backend.example; SameSite=Lax'' example_url
     = Some ''auth=abc; Path=/; Domain=example.com; SameSite=None; Secure''"
    by code_simp
  have h: "hostname example_url = ''example.com''" by (simp add: example_url_def)
  show ?thesis
    using a modifyCookie_refines_spec[of "''auth=abc; Path=/; Domain=backend.example; SameSite=Lax''" example_url]
    by (simp only: h simp_thms)
qed

text \<open>
  Claim C1, as the code has it. Whenever \<^verbatim>\<open>modifyCookie\<close> returns a string (it does
  for every non-empty value and every URL), the string is the join of the array
  \<^verbatim>\<open>newCookieParts\<close>, and after its main part that array holds \<open>max 1 k\<close> segments
  that pass the Domain test, each equal to Domain= and the host name, where \<open>k\<close> is the
  number of such segments in the input; likewise \<open>max 1 k\<close> segments SameSite=None and
  \<open>max 1 k\<close> segments Secure. Every matching segment is rewritten where it stands and none
  is removed, so there is exactly one of each exactly when the input had at most one of
  each. When the host name has no semicolon and no white space at its end, splitting the
  returned string gives these segments back.
\<close>

theorem modifyCookie_attribute_counts:
  assumes "modifyCookie cookie u = Some s"
  shows "s = str_join ''; '' (final_parts cookie u)
    \<and> filter isDomain (tl (final_parts cookie u))
        = replicate (max 1 (length (filter isDomain (attribute_segments cookie))))
            (''Domain='' @ hostname u)
    \<and> filter isSameSite (tl (final_parts cookie u))
        = replicate (max 1 (length (filter isSameSite (attribute_segments cookie))))
            ''SameSite=None''
    \<and> filter isSecure (tl (final_parts cookie u))
        = replicate (max 1 (length (filter isSecure (attribute_segments cookie)))) ''Secure''
    \<and> (hostname_ok (hostname u) \<longrightarrow> attribute_segments s = tl (final_parts cookie u))"
proof -
  from assms have s: "s = str_join ''; '' (final_parts cookie u)"
    by (simp add: modifyCookie_Some)
  have "hostname_ok (hostname u) \<longrightarrow> attribute_segments s = tl (final_parts cookie u)"
    using resplit_final_parts[of u cookie] by (simp add: attribute_segments_def s)
  with s show ?thesis by (simp only: count_Domain count_SameSite count_Secure simp_thms)
qed

theorem modifyCookie_attribute_counts_witness:
  "modifyCookie ''auth=abc; Path=/'' example_url
     = Some ''auth=abc; Path=/; Domain=example.com; SameSite=None; Secure''
   \<and> hostname_ok (hostname example_url)
   \<and> filter isDomain (attribute_segments ''auth=abc; Path=/; Domain=example.com; SameSite=None; Secure'')
     = [''Domain=example.com'']
   \<and> filter isSameSite (attribute_segments ''auth=abc; Path=/; Domain=example.com; SameSite=None; Secure'')
     = [''SameSite=None'']
   \<and> filter isSecure (attribute_segments ''auth=abc; Path=/; Domain=example.com; SameSite=None; Secure'')
     = [''Secure'']"
proof -
  let ?c = "''auth=abc; Path=/''"
  let ?s = "''auth=abc; Path=/; Domain=example.com; SameSite=None; Secure''"
  have m: "modifyCookie ?c example_url = Some ?s" by code_simp
  have h: "hostname_ok (hostname example_url)" by code_simp
  have n: "hostname example_url = ''example.com''" by (simp add: example_url_def)
  have z: "filter isDomain (attribute_segments ?c) = []"
    "filter isSameSite (attribute_segments ?c) = []"
    "filter isSecure (attribute_segments ?c) = []" by code_simp+
  note t = modifyCookie_attribute_counts[OF m]
  from t h have a: "attribute_segments ?s = tl (final_parts ?c example_url)" by blast
  from t have "filter isDomain (tl (final_parts ?c example_url))
      = replicate (max 1 (length (filter isDomain (attribute_segments ?c))))
          (''Domain='' @ hostname example_url)"
    and "filter isSameSite (tl (final_parts ?c example_url))
      = replicate (max 1 (length (filter isSameSite (attribute_segments ?c)))) ''SameSite=None''"
    and "filter isSecure (tl (final_parts ?c example_url))
      = replicate (max 1 (length (filter isSecure (attribute_segments ?c)))) ''Secure''"
    by blast+
  then have "filter isDomain (attribute_segments ?s) = [''Domain=example.com'']"
    and "filter isSameSite (attribute_segments ?s) = [''SameSite=None'']"
    and "filter isSecure (attribute_segments ?s) = [''Secure'']"
    by (simp_all only: a z n list.size max_nat.right_neutral replicate.simps One_nat_def append.simps)
  with m h show ?thesis by blast
qed

text \<open>
  The claim as stated fails on a value with two Domain attributes: both are rewritten and
  both stay.
\<close>

theorem modifyCookie_attribute_counts_counterexample:
  "modifyCookie ''a=b; Domain=x; Domain=y'' example_url
     = Some ''a=b; Domain=example.com; Domain=example.com; SameSite=None; Secure''
   \<and> length (filter isDomain
        (attribute_segments ''a=b; Domain=example.com; Domain=example.com; SameSite=None; Secure''))
     = 2"
  by code_simp

text \<open>
  Claim C6. The returned string is the join of \<^verbatim>\<open>newCookieParts\<close>. Its first
  element is the main part, the trimmed text before the first semicolon of the input, and
  the returned string starts with it. The elements after it that are neither a Domain, a
  SameSite nor a Secure segment are the input's segments of that kind, unchanged and in
  their order. When the host name has no semicolon and no white space at its end, this
  reads the same on the segments of the returned string.
\<close>

theorem modifyCookie_keeps_other_attributes:
  assumes "modifyCookie cookie u = Some s"
  shows "s = str_join ''; '' (final_parts cookie u)
    \<and> hd (final_parts cookie u) = trim (takeWhile (\<lambda>c. c \<noteq> CHR '';'') cookie)
    \<and> startsWith s (trim (takeWhile (\<lambda>c. c \<noteq> CHR '';'') cookie))
    \<and> filter isOther (tl (final_parts cookie u)) = filter isOther (attribute_segments cookie)
    \<and> (hostname_ok (hostname u) \<longrightarrow>
         hd (cookie_segments s) = hd (cookie_segments cookie)
         \<and> filter isOther (attribute_segments s) = filter isOther (attribute_segments cookie))"
proof -
  let ?m = "trim (takeWhile (\<lambda>c. c \<noteq> CHR '';'') cookie)"
  from assms have s: "s = str_join ''; '' (final_parts cookie u)"
    by (simp add: modifyCookie_Some)
  have m: "hd (cookie_segments cookie) = ?m"
    by (simp add: cookie_segments_def hd_map str_split_nonempty hd_str_split)
  then have h: "hd (final_parts cookie u) = ?m" by (simp add: hd_final_parts)
  have "final_parts cookie u = ?m # tl (final_parts cookie u)"
    using h final_parts_nonempty[of cookie u] by (metis list.collapse)
  then have "s = str_join ''; '' (?m # tl (final_parts cookie u))" using s by simp
  then have st: "startsWith s ?m" by (simp only: startsWith_def str_join_starts)
  have "hostname_ok (hostname u) \<longrightarrow>
      hd (cookie_segments s) = hd (cookie_segments cookie)
      \<and> filter isOther (attribute_segments s) = filter isOther (attribute_segments cookie)"
    using resplit_final_parts[of u cookie] keep_Other[of cookie u]
    by (simp add: attribute_segments_def s hd_final_parts)
  with s h st show ?thesis by (simp only: keep_Other simp_thms)
qed

theorem modifyCookie_keeps_other_attributes_witness:
  "modifyCookie '' sid=Ab1 ;HttpOnly; domain=up.example ; Path=/;Max-Age=60'' example_url
     = Some ''sid=Ab1; HttpOnly; Domain=example.com; Path=/; Max-Age=60; SameSite=None; Secure''
   \<and> hostname_ok (hostname example_url)
   \<and> hd (cookie_segments
        ''sid=Ab1; HttpOnly; Domain=example.com; Path=/; Max-Age=60; SameSite=None; Secure'')
     = ''sid=Ab1''
   \<and> filter isOther (attribute_segments
        ''sid=Ab1; HttpOnly; Domain=example.com; Path=/; Max-Age=60; SameSite=None; Secure'')
     = [''HttpOnly'', ''Path=/'', ''Max-Age=60'']"
proof -
  let ?c = "'' sid=Ab1 ;HttpOnly; domain=up.example ; Path=/;Max-Age=60''"
  let ?s = "''sid=Ab1; HttpOnly; Domain=example.com; Path=/; Max-Age=60; SameSite=None; Secure''"
  have m: "modifyCookie ?c example_url = Some ?s" by code_simp
  have h: "hostname_ok (hostname example_url)" by code_simp
  have c: "hd (cookie_segments ?c) = ''sid=Ab1''"
    "filter isOther (attribute_segments ?c) = [''HttpOnly'', ''Path=/'', ''Max-Age=60'']"
    by code_simp+
  note t = modifyCookie_keeps_other_attributes[OF m]
  from t h have "hd (cookie_segments ?s) = hd (cookie_segments ?c)"
    and "filter isOther (attribute_segments ?s) = filter isOther (attribute_segments ?c)"
    by blast+
  then have "hd (cookie_segments ?s) = ''sid=Ab1''"
    and "filter isOther (attribute_segments ?s) = [''HttpOnly'', ''Path=/'', ''Max-Age=60'']"
    by (simp_all only: c)
  with m h show ?thesis by blast
qed

text \<open>
  Claim C10, as the code has it. For a request URL whose host name has no semicolon and
  no white space at its end, rewriting the output of the rewrite returns it unchanged.
\<close>

theorem modifyCookie_idempotent:
  assumes "hostname_ok (hostname u)" and "modifyCookie c u = Some s"
  shows "modifyCookie s u = Some s"
proof -
  let ?P = "final_parts c u"
  let ?A = "attribute_segments c"
  from assms(2) have s: "s = str_join ''; '' ?P" by (simp add: modifyCookie_Some)
  have ne: "s \<noteq> []"
    using modifyCookie_not_empty[of c u] assms(2) by auto
  have segs: "cookie_segments s = ?P"
    using resplit_final_parts[OF assms(1)] s by simp
  have tlP: "tl ?P = map (rewrite_part u) ?A @ missing_parts u ?A" by (rule tl_final_parts)
  have fixed: "map (rewrite_part u) (tl ?P) = tl ?P"
  proof -
    have "rewrite_part u q = q" if "q \<in> set (missing_parts u ?A)" for q
    proof -
      from that have "q = ''Domain='' @ hostname u \<or> q = ''SameSite=None'' \<or> q = ''Secure''"
        by (auto simp: missing_parts_def split: if_splits)
      then show ?thesis
        using rewrite_part_Domain[OF isDomain_pushed, of u "hostname u"]
          rewrite_part_SameSite[OF isSameSite_pushed, of u]
          rewrite_part_Secure[OF isSecure_pushed, of u] by auto
    qed
    then have "map (rewrite_part u) (missing_parts u ?A) = missing_parts u ?A"
      by (simp add: map_idI)
    then show ?thesis by (simp add: tlP rewrite_part_idem)
  qed
  have pos: "replicate (max 1 n) x \<noteq> []" for n :: nat and x :: string
    by (cases n) (simp_all add: max_def)
  have "filter isDomain (tl ?P) \<noteq> []" "filter isSameSite (tl ?P) \<noteq> []"
    "filter isSecure (tl ?P) \<noteq> []"
    by (simp_all only: count_Domain count_SameSite count_Secure pos not_False_eq_True)
  then have "list_ex isDomain (tl ?P)" "list_ex isSameSite (tl ?P)" "list_ex isSecure (tl ?P)"
    by (simp_all add: list_ex_iff filter_empty_conv)
  then have none: "missing_parts u (tl ?P) = []" by (simp add: missing_parts_def)
  have "final_parts s u = hd ?P # tl ?P"
    by (simp add: final_parts_eq[of s u] segs fixed none)
  then have "final_parts s u = ?P" using final_parts_nonempty[of c u] by simp
  with ne s show ?thesis by (simp add: modifyCookie_def)
qed

theorem modifyCookie_idempotent_witness:
  "hostname_ok (hostname example_url)
   \<and> modifyCookie ''auth_token=abc123; Path=/; Domain=laclipasa-backend.fly.dev; SameSite=Lax''
       example_url
     = Some ''auth_token=abc123; Path=/; Domain=example.com; SameSite=None; Secure''
   \<and> modifyCookie ''auth_token=abc123; Path=/; Domain=example.com; SameSite=None; Secure''
       example_url
     = Some ''auth_token=abc123; Path=/; Domain=example.com; SameSite=None; Secure''"
proof -
  have h: "hostname_ok (hostname example_url)" by code_simp
  have m: "modifyCookie ''auth_token=abc123; Path=/; Domain=laclipasa-backend.fly.dev; SameSite=Lax''
       example_url
     = Some ''auth_token=abc123; Path=/; Domain=example.com; SameSite=None; Secure''"
    by code_simp
  show ?thesis using h m modifyCookie_idempotent[OF h m] by simp
qed

text \<open>
  The host name is written into the cookie as it is. With a semicolon in it the second
  rewrite splits the Domain attribute in two and keeps the second half as an attribute
  of its own.
\<close>

theorem modifyCookie_idempotent_counterexample:
  "modifyCookie ''a=b'' semicolon_url = Some ''a=b; Domain=a;b; SameSite=None; Secure''
   \<and> modifyCookie ''a=b; Domain=a;b; SameSite=None; Secure'' semicolon_url
     = Some ''a=b; Domain=a;b; b; SameSite=None; Secure''
   \<and> ''a=b; Domain=a;b; b; SameSite=None; Secure'' \<noteq> ''a=b; Domain=a;b; SameSite=None; Secure''"
  by code_simp

section \<open>Lemmas on headers\<close>

lemma headers_has_getAll: "headers_has n h = (headers_getAll n h \<noteq> [])"
  by (induction h) (auto simp: headers_has_def headers_getAll_def)

lemma headers_get_getAll:
  "headers_get n h =
     (if headers_getAll n h = [] then None else Some (str_join '', '' (headers_getAll n h)))"
  by (simp add: headers_get_def headers_has_getAll)

lemma getAll_same_name: "toLowerCase a = toLowerCase b \<Longrightarrow> headers_getAll a h = headers_getAll b h"
  by (simp add: headers_getAll_def same_name_def)

lemma getAll_lower: "headers_getAll (toLowerCase n) h = headers_getAll n h"
  by (rule getAll_same_name) (rule toLowerCase_idem)

lemma getAll_Nil: "headers_getAll n [] = []"
  by (simp add: headers_getAll_def)

lemma getAll_Cons:
  "headers_getAll n (e # h) =
     (if toLowerCase (fst e) = toLowerCase n then snd e # headers_getAll n h
      else headers_getAll n h)"
  by (simp add: headers_getAll_def same_name_def)

lemma getAll_append_list: "headers_getAll n (h @ h') = headers_getAll n h @ headers_getAll n h'"
  by (simp add: headers_getAll_def)

lemma getAll_headers_append:
  "headers_getAll n (headers_append k v h) =
     headers_getAll n h @ (if toLowerCase k = toLowerCase n then [v] else [])"
  by (simp add: headers_append_def getAll_append_list getAll_Cons getAll_Nil)

lemma getAll_filter_other:
  "toLowerCase k \<noteq> toLowerCase n \<Longrightarrow>
   headers_getAll n (filter (\<lambda>e. toLowerCase (fst e) \<noteq> toLowerCase k) h) = headers_getAll n h"
  by (induction h) (auto simp: getAll_Cons getAll_Nil)

lemma getAll_filter_same:
  "toLowerCase k = toLowerCase n \<Longrightarrow>
   headers_getAll n (filter (\<lambda>e. toLowerCase (fst e) \<noteq> toLowerCase k) h) = []"
  by (induction h) (auto simp: getAll_Cons getAll_Nil)

lemma getAll_set_first_other:
  "toLowerCase k \<noteq> toLowerCase n \<Longrightarrow> headers_getAll n (set_first k v h) = headers_getAll n h"
  by (induction h) (auto simp: getAll_Cons getAll_Nil same_name_def getAll_filter_other)

lemma getAll_set_first_same:
  "toLowerCase k = toLowerCase n \<Longrightarrow> headers_getAll n h \<noteq> [] \<Longrightarrow>
   headers_getAll n (set_first k v h) = [v]"
  by (induction h)
     (auto simp: getAll_Cons getAll_Nil same_name_def getAll_filter_same split: if_splits)

lemma getAll_headers_set:
  "headers_getAll n (headers_set k v h) =
     (if toLowerCase k = toLowerCase n then [v] else headers_getAll n h)"
proof (cases "toLowerCase k = toLowerCase n")
  case True
  then have k: "headers_getAll k h = headers_getAll n h" by (rule getAll_same_name)
  show ?thesis
    using True getAll_set_first_same[OF True, of h v]
    by (simp add: headers_set_def headers_has_getAll k getAll_append_list getAll_Cons getAll_Nil)
next
  case False
  then show ?thesis
    by (simp add: headers_set_def getAll_set_first_other getAll_append_list getAll_Cons getAll_Nil)
qed

subsection \<open>Copying the headers that are not cookies\<close>

lemma getAll_copy_header:
  "headers_getAll n (copy_header acc e) =
     (if toLowerCase (fst e) \<noteq> ''set-cookie'' \<and> toLowerCase (fst e) = toLowerCase n
      then [snd e] else headers_getAll n acc)"
  by (simp add: copy_header_def getAll_headers_set)

lemma getAll_copy_fold:
  "headers_getAll n (foldl copy_header acc es) =
     (let vs = map snd (filter (\<lambda>e. toLowerCase (fst e) \<noteq> ''set-cookie''
                                   \<and> toLowerCase (fst e) = toLowerCase n) es)
      in if vs = [] then headers_getAll n acc else [last vs])"
proof (induction es arbitrary: acc)
  case Nil
  then show ?case by simp
next
  case (Cons e es)
  show ?case
    by (simp only: foldl_Cons Cons.IH getAll_copy_header) (simp add: Let_def)
qed

lemma concat_pick:
  "distinct ns \<Longrightarrow>
   concat (map (\<lambda>m. if m = x then [g m] else []) ns) = (if x \<in> set ns then [g x] else [])"
  by (induction ns) auto

lemma entry_names_lower:
  assumes "m \<in> set (sort (remdups (map (\<lambda>e. toLowerCase (fst e)) h)))"
  shows "toLowerCase m = m"
proof -
  from assms obtain e where "m = toLowerCase (fst e)" by auto
  then show ?thesis by (simp only: toLowerCase_idem)
qed

lemma entry_names_has:
  "(toLowerCase n \<in> set (sort (remdups (map (\<lambda>e. toLowerCase (fst e)) h)))) = headers_has n h"
proof -
  have "(toLowerCase n \<in> (\<lambda>e. toLowerCase (fst e)) ` set h)
      = (\<exists>e \<in> set h. toLowerCase (fst e) = toLowerCase n)"
    by (simp only: image_iff) (rule bex_cong[OF refl], rule eq_commute)
  then show ?thesis by (simp add: headers_has_def list_ex_iff same_name_def)
qed

lemma pick_entry:
  assumes "toLowerCase n \<noteq> ''set-cookie''" and "toLowerCase m = m"
  shows "filter (\<lambda>e. toLowerCase (fst e) \<noteq> ''set-cookie'' \<and> toLowerCase (fst e) = toLowerCase n)
           (if m = ''set-cookie''
            then map (\<lambda>v. (m, v)) (headers_getAll m h)
            else [(m, str_join '', '' (headers_getAll m h))])
         = (if m = toLowerCase n then [(m, str_join '', '' (headers_getAll m h))] else [])"
proof (cases "m = ''set-cookie''")
  case True
  have "filter (\<lambda>e. toLowerCase (fst e) \<noteq> ''set-cookie'' \<and> toLowerCase (fst e) = toLowerCase n)
          (map (\<lambda>v. (m, v)) vs) = []" for vs :: "string list"
    using assms(2) True by (induction vs) simp_all
  moreover have "m \<noteq> toLowerCase n" using assms(1) True by simp
  ultimately show ?thesis using True by simp
next
  case False
  then show ?thesis using assms(2) by simp
qed

lemma entries_matching:
  assumes "toLowerCase n \<noteq> ''set-cookie''"
  shows "filter (\<lambda>e. toLowerCase (fst e) \<noteq> ''set-cookie'' \<and> toLowerCase (fst e) = toLowerCase n)
           (headers_entries h)
         = (if headers_has n h
            then [(toLowerCase n, str_join '', '' (headers_getAll n h))] else [])"
proof -
  let ?P = "\<lambda>e. toLowerCase (fst e) \<noteq> ''set-cookie'' \<and> toLowerCase (fst e) = toLowerCase n"
  let ?f = "\<lambda>m. if m = ''set-cookie''
                  then map (\<lambda>v. (m, v)) (headers_getAll m h)
                  else [(m, str_join '', '' (headers_getAll m h))]"
  let ?ns = "sort (remdups (map (\<lambda>e. toLowerCase (fst e)) h))"
  let ?g = "\<lambda>m. (m, str_join '', '' (headers_getAll m h))"
  have "filter ?P (headers_entries h) = concat (map (\<lambda>m. filter ?P (?f m)) ?ns)"
    by (simp only: headers_entries_def filter_concat map_map comp_def)
  also have "\<dots> = concat (map (\<lambda>m. if m = toLowerCase n then [?g m] else []) ?ns)"
  proof -
    have "map (\<lambda>m. filter ?P (?f m)) ?ns = map (\<lambda>m. if m = toLowerCase n then [?g m] else []) ?ns"
      by (rule map_cong[OF refl]) (rule pick_entry[OF assms entry_names_lower])
    then show ?thesis by (rule arg_cong)
  qed
  also have "\<dots> = (if toLowerCase n \<in> set ?ns then [?g (toLowerCase n)] else [])"
    by (rule concat_pick) simp
  finally show ?thesis by (simp only: entry_names_has getAll_lower)
qed

lemma getAll_copied:
  assumes "toLowerCase n \<noteq> ''set-cookie''"
  shows "headers_getAll n (foldl copy_header [] (headers_entries h))
         = (if headers_has n h then [str_join '', '' (headers_getAll n h)] else [])"
proof -
  have "map snd (filter (\<lambda>e. toLowerCase (fst e) \<noteq> ''set-cookie''
                              \<and> toLowerCase (fst e) = toLowerCase n) (headers_entries h))
      = (if headers_has n h then [str_join '', '' (headers_getAll n h)] else [])"
    by (simp add: entries_matching[OF assms])
  then show ?thesis by (simp add: getAll_copy_fold getAll_Nil Let_def)
qed

lemma getAll_copied_cookie:
  assumes "toLowerCase n = ''set-cookie''"
  shows "headers_getAll n (foldl copy_header [] (headers_entries h)) = []"
proof -
  have "filter (\<lambda>e. toLowerCase (fst e) \<noteq> ''set-cookie''
                     \<and> toLowerCase (fst e) = toLowerCase n) es = []" for es :: headers
    using assms by (simp add: filter_empty_conv)
  then show ?thesis by (simp add: getAll_copy_fold getAll_Nil Let_def)
qed

subsection \<open>Appending the rewritten cookies\<close>

lemma getAll_append_cookie:
  "headers_getAll n (append_cookie request acc c) =
     headers_getAll n acc @
       (if toLowerCase ''Set-Cookie'' = toLowerCase n
        then (case modifyCookie c (req_url request) of None \<Rightarrow> [] | Some m \<Rightarrow> [m]) else [])"
  using modifyCookie_not_empty[of c "req_url request"]
  by (auto simp: append_cookie_def getAll_headers_append split: option.splits)

lemma getAll_cookie_fold:
  "headers_getAll n (foldl (append_cookie request) acc cs) =
     headers_getAll n acc @
       (if toLowerCase ''Set-Cookie'' = toLowerCase n
        then List.map_filter (\<lambda>c. modifyCookie c (req_url request)) cs else [])"
proof (induction cs arbitrary: acc)
  case Nil
  then show ?case by (simp add: List.map_filter_simps)
next
  case (Cons c cs)
  show ?case
    by (simp only: foldl_Cons Cons.IH getAll_append_cookie)
       (simp add: List.map_filter_simps split: option.splits)
qed

section \<open>Lemmas on the rebuilt response\<close>

lemma lower_names:
  "toLowerCase ''Set-Cookie'' = ''set-cookie''"
  "toLowerCase ''Access-Control-Allow-Origin'' = ''access-control-allow-origin''"
  "toLowerCase ''Access-Control-Allow-Credentials'' = ''access-control-allow-credentials''"
  "toLowerCase ''Access-Control-Allow-Methods'' = ''access-control-allow-methods''"
  "toLowerCase ''Access-Control-Allow-Headers'' = ''access-control-allow-headers''"
  by code_simp+

lemma getAll_rebuild:
  "headers_getAll n (resp_headers (rebuildResponse response request u)) =
     (if ''access-control-allow-headers'' = toLowerCase n then [''Content-Type, Authorization'']
      else if ''access-control-allow-methods'' = toLowerCase n
        then [''GET, POST, PUT, DELETE, OPTIONS'']
      else if ''access-control-allow-credentials'' = toLowerCase n then [''true'']
      else if ''access-control-allow-origin'' = toLowerCase n then [origin u]
      else if ''set-cookie'' = toLowerCase n
        then List.map_filter (\<lambda>c. modifyCookie c (req_url request))
               (headers_getAll ''Set-Cookie'' (resp_headers response))
      else if headers_has n (resp_headers response)
        then [str_join '', '' (headers_getAll n (resp_headers response))]
      else [])"
proof -
  let ?h0 = "foldl copy_header [] (headers_entries (resp_headers response))"
  let ?cs = "headers_getAll ''Set-Cookie'' (resp_headers response)"
  let ?h1 = "foldl (append_cookie request) ?h0 ?cs"
  have h1: "(if ?cs \<noteq> [] then ?h1 else ?h0) = ?h1" by simp
  have g1: "headers_getAll n ?h1 =
      (if ''set-cookie'' = toLowerCase n
       then List.map_filter (\<lambda>c. modifyCookie c (req_url request)) ?cs
       else if headers_has n (resp_headers response)
         then [str_join '', '' (headers_getAll n (resp_headers response))]
       else [])"
  proof (cases "toLowerCase n = ''set-cookie''")
    case True
    then show ?thesis
      by (simp add: getAll_cookie_fold lower_names getAll_copied_cookie)
  next
    case False
    then have "''set-cookie'' \<noteq> toLowerCase n" by auto
    with False show ?thesis
      by (simp add: getAll_cookie_fold lower_names getAll_copied)
  qed
  show ?thesis
    unfolding rebuildResponse_def Let_def h1
    by (simp add: getAll_headers_set lower_names g1)
qed

lemma str_join_single: "str_join sep [x] = x"
  by simp

lemma get_rebuild_unwritten:
  assumes "\<not> written_name n"
  shows "headers_get n (resp_headers (rebuildResponse response request u))
         = headers_get n (resp_headers response)"
proof -
  from assms have "''access-control-allow-headers'' \<noteq> toLowerCase n"
    "''access-control-allow-methods'' \<noteq> toLowerCase n"
    "''access-control-allow-credentials'' \<noteq> toLowerCase n"
    "''access-control-allow-origin'' \<noteq> toLowerCase n"
    "''set-cookie'' \<noteq> toLowerCase n"
    unfolding written_name_def by metis+
  then have "headers_getAll n (resp_headers (rebuildResponse response request u))
      = (if headers_has n (resp_headers response)
         then [str_join '', '' (headers_getAll n (resp_headers response))] else [])"
    by (simp only: getAll_rebuild if_False)
  then show ?thesis
    by (simp add: headers_get_getAll headers_has_getAll)
qed

lemma cors_rebuild:
  "carries_cors (origin u) (resp_headers (rebuildResponse response request u))"
  unfolding carries_cors_def headers_get_getAll
  by (simp add: getAll_rebuild lower_names)

lemma map_filter_modifyCookie:
  "List.map_filter (\<lambda>c. modifyCookie c u) cs
     = map (\<lambda>c. str_join ''; '' (final_parts c u)) (filter (\<lambda>c. c \<noteq> []) cs)"
  by (induction cs) (simp_all add: List.map_filter_simps modifyCookie_def)

lemma cookies_rebuild:
  "headers_getAll ''Set-Cookie'' (resp_headers (rebuildResponse response request u))
     = List.map_filter (\<lambda>c. modifyCookie c (req_url request))
         (headers_getAll ''Set-Cookie'' (resp_headers response))"
  by (simp add: getAll_rebuild lower_names)

lemma rebuild_status:
  "resp_status (rebuildResponse response request u) = resp_status response"
  "resp_statusText (rebuildResponse response request u) = resp_statusText response"
  "resp_body (rebuildResponse response request u) = Some (arrayBuffer response)"
  by (simp_all add: rebuildResponse_def Let_def)

subsection \<open>The handlers\<close>

lemma startsWith_shorter:
  assumes "startsWith s (p @ q)"
  shows "startsWith s p"
proof -
  from assms have a: "take (length (p @ q)) s = p @ q" by (simp only: startsWith_def)
  have "take (length p) s = take (length p) (take (length (p @ q)) s)" by (simp add: min_def)
  also have "\<dots> = take (length p) (p @ q)" by (simp only: a)
  also have "\<dots> = p" by simp
  finally show ?thesis by (simp only: startsWith_def)
qed

lemma strip_prefix:
  assumes "startsWith p ''/fly-api/''"
  shows "str_replace ''/fly-api'' [] p = drop (length ''/fly-api'') p"
proof -
  have "startsWith p (''/fly-api'' @ ''/'')" using assms by simp
  then have s: "startsWith p ''/fly-api''" by (rule startsWith_shorter)
  then obtain c cs where p: "p = c # cs" by (cases p) (auto simp: startsWith_def)
  have "str_replace ''/fly-api'' [] (c # cs) = [] @ drop (length ''/fly-api'') (c # cs)"
    using s[unfolded p] by (simp only: str_replace.simps if_True)
  then show ?thesis by (simp only: p append_Nil)
qed

lemma worker_fetch_match:
  "startsWith (pathname (req_url request)) ''/fly-api/'' \<Longrightarrow>
   worker_fetch fetch request =
     (rebuildResponse (fetch (worker_modifiedRequest request (req_url request))) request
        (req_url request),
      [worker_modifiedRequest request (req_url request)])"
  by (simp add: worker_fetch_def worker_handleApiRequest_def Let_def)

lemma pages_handleApiRequest_calls:
  "snd (pages_handleApiRequest fetch request u) = [pages_modifiedRequest request u]"
  by (simp add: pages_handleApiRequest_def Let_def)

lemma pages_handleApiRequest_final:
  "\<not> is_redirect (fetch (pages_modifiedRequest request u)) \<Longrightarrow>
   fst (pages_handleApiRequest fetch request u)
     = rebuildResponse (fetch (pages_modifiedRequest request u)) request u"
  by (auto simp add: pages_handleApiRequest_def Let_def is_redirect_def)

lemma pages_handleApiRequest_redirect:
  "is_redirect (fetch (pages_modifiedRequest request u)) \<Longrightarrow>
   fst (pages_handleApiRequest fetch request u)
     = \<lparr>resp_status = resp_status (fetch (pages_modifiedRequest request u)),
        resp_statusText = resp_statusText (fetch (pages_modifiedRequest request u)),
        resp_headers = resp_headers (fetch (pages_modifiedRequest request u)),
        resp_body = None\<rparr>"
  by (auto simp add: pages_handleApiRequest_def Let_def is_redirect_def)

lemma pages_handleRequest_match:
  "startsWith (pathname (req_url request)) ''/fly-api/'' \<Longrightarrow>
   pages_handleRequest fetch request = pages_handleApiRequest fetch request (req_url request)"
  by (simp add: pages_handleRequest_def Let_def)

text \<open>The other versions, for comparison: the Pages function passes a request outside the
  prefix on to the HTTP client, and the worker and the template let the client follow
  redirects.\<close>

lemma pages_passes_other_requests:
  "\<not> startsWith (pathname (req_url request)) ''/fly-api/'' \<Longrightarrow>
   length (snd (pages_handleRequest fetch request)) = 1
   \<and> map fr_url (snd (pages_handleRequest fetch request)) = [href (req_url request)]"
  by (simp add: pages_handleRequest_def Let_def)

lemma worker_follows_redirects:
  "fr_redirect (worker_modifiedRequest request u) = RedirectFollow
   \<and> fr_redirect (template_modifiedRequest request u) = RedirectFollow"
  by (simp add: worker_modifiedRequest_def template_modifiedRequest_def)

section \<open>The claims on the handlers\<close>

text \<open>
  Claim C2. The Pages function hands exactly one request to the HTTP client, with
  redirect mode \<^verbatim>\<open>manual\<close>. When the answer has a status from 300 to 399 and a
  Location header, the function returns the answer's status, status text and header list
  as they are (so the Location, the cookies and any CORS header are the upstream's own,
  nothing rewritten, nothing added) and no body. Every other answer, a 3xx without
  Location among them, is rebuilt by the common block that copies the headers, rewrites
  the cookies and sets the CORS headers.
\<close>

theorem pages_redirect_classification:
  "snd (pages_handleApiRequest fetch request u) = [pages_modifiedRequest request u]
   \<and> fr_redirect (pages_modifiedRequest request u) = RedirectManual
   \<and> (is_redirect (fetch (pages_modifiedRequest request u)) \<longrightarrow>
        fst (pages_handleApiRequest fetch request u)
          = \<lparr>resp_status = resp_status (fetch (pages_modifiedRequest request u)),
             resp_statusText = resp_statusText (fetch (pages_modifiedRequest request u)),
             resp_headers = resp_headers (fetch (pages_modifiedRequest request u)),
             resp_body = None\<rparr>)
   \<and> (\<not> is_redirect (fetch (pages_modifiedRequest request u)) \<longrightarrow>
        fst (pages_handleApiRequest fetch request u)
          = rebuildResponse (fetch (pages_modifiedRequest request u)) request u)"
  using pages_handleApiRequest_redirect[of fetch request u]
    pages_handleApiRequest_final[of fetch request u]
  by (simp add: pages_handleApiRequest_calls pages_modifiedRequest_def Let_def)

theorem pages_redirect_classification_witness:
  "is_redirect redirect_response
   \<and> pages_handleApiRequest redirect_client example_request example_url
      = (\<lparr>resp_status = 302, resp_statusText = ''Found'',
          resp_headers = [(''Location'', ''https://x/y''), (''Set-Cookie'', ''a=b; Domain=x'')],
          resp_body = None\<rparr>,
         [\<lparr>fr_url = ''https://laclipasa-backend.fly.dev/login'', fr_method = ''GET'',
           fr_headers = [], fr_body = None, fr_redirect = RedirectManual\<rparr>])
   \<and> \<not> is_redirect not_modified_response
   \<and> fst (pages_handleApiRequest not_modified_client example_request example_url)
      = \<lparr>resp_status = 304, resp_statusText = ''Not Modified'',
         resp_headers =
           [(''etag'', ''W/1''),
            (''Access-Control-Allow-Origin'', ''http://example.com''),
            (''Access-Control-Allow-Credentials'', ''true''),
            (''Access-Control-Allow-Methods'', ''GET, POST, PUT, DELETE, OPTIONS''),
            (''Access-Control-Allow-Headers'', ''Content-Type, Authorization'')],
         resp_body = Some []\<rparr>"
proof -
  let ?mr = "pages_modifiedRequest example_request example_url"
  have r: "is_redirect redirect_response" by code_simp
  have n: "\<not> is_redirect not_modified_response" by code_simp
  have mr: "?mr = \<lparr>fr_url = ''https://laclipasa-backend.fly.dev/login'', fr_method = ''GET'',
           fr_headers = [], fr_body = None, fr_redirect = RedirectManual\<rparr>"
    by code_simp
  have rb: "rebuildResponse not_modified_response example_request example_url
      = \<lparr>resp_status = 304, resp_statusText = ''Not Modified'',
         resp_headers =
           [(''etag'', ''W/1''),
            (''Access-Control-Allow-Origin'', ''http://example.com''),
            (''Access-Control-Allow-Credentials'', ''true''),
            (''Access-Control-Allow-Methods'', ''GET, POST, PUT, DELETE, OPTIONS''),
            (''Access-Control-Allow-Headers'', ''Content-Type, Authorization'')],
         resp_body = Some []\<rparr>"
    by code_simp
  have rr: "redirect_response = \<lparr>resp_status = 302, resp_statusText = ''Found'',
          resp_headers = [(''Location'', ''https://x/y''), (''Set-Cookie'', ''a=b; Domain=x'')],
          resp_body = None\<rparr>"
    by (simp add: redirect_response_def)
  note a = pages_redirect_classification[of redirect_client example_request example_url]
  note b = pages_redirect_classification[of not_modified_client example_request example_url]
  have "fst (pages_handleApiRequest redirect_client example_request example_url)
      = redirect_response"
    using a r by (simp add: redirect_client_def rr)
  moreover have "snd (pages_handleApiRequest redirect_client example_request example_url) = [?mr]"
    using a by blast
  ultimately have 1: "pages_handleApiRequest redirect_client example_request example_url
      = (redirect_response, [?mr])"
    by (simp add: prod_eq_iff)
  have 2: "fst (pages_handleApiRequest not_modified_client example_request example_url)
      = rebuildResponse not_modified_response example_request example_url"
    using b n by (simp add: not_modified_client_def)
  show ?thesis using r n 1 2 by (simp only: rb mr rr simp_thms)
qed

text \<open>
  Claim C4, as the code has it. For every request whose path starts with the prefix, the
  one URL handed to the HTTP client is the backend origin, then the path (the worker keeps
  it, the Pages function drops its leading \<^verbatim>\<open>/fly-api\<close>), then
  \<^verbatim>\<open>url.search\<close>: a question mark and the query when the query is not empty,
  and nothing at all when it is empty.
\<close>

theorem upstream_url:
  assumes "startsWith (pathname (req_url request)) ''/fly-api/''"
  shows "map fr_url (snd (worker_fetch fetch request))
           = [''https://laclipasa-backend.fly.dev'' @ pathname (req_url request)
                @ search (req_url request)]
    \<and> map fr_url (snd (pages_handleRequest fetch request))
           = [''https://laclipasa-backend.fly.dev''
                @ drop (length ''/fly-api'') (pathname (req_url request))
                @ search (req_url request)]
    \<and> search (req_url request)
           = (if query (req_url request) = [] then [] else ''?'' @ query (req_url request))"
  using assms
  by (simp add: worker_fetch_match pages_handleRequest_match pages_handleApiRequest_calls
      worker_modifiedRequest_def pages_modifiedRequest_def strip_prefix search_def Let_def)

theorem upstream_url_witness:
  "startsWith (pathname (req_url search_request)) ''/fly-api/''
   \<and> map fr_url (snd (worker_fetch cookie_client search_request))
       = [''https://laclipasa-backend.fly.dev/fly-api/items?q=1&r=2'']
   \<and> map fr_url (snd (pages_handleRequest cookie_client search_request))
       = [''https://laclipasa-backend.fly.dev/items?q=1&r=2'']"
proof -
  have m: "startsWith (pathname (req_url search_request)) ''/fly-api/''" by code_simp
  have e: "''https://laclipasa-backend.fly.dev'' @ pathname (req_url search_request)
                @ search (req_url search_request)
           = ''https://laclipasa-backend.fly.dev/fly-api/items?q=1&r=2''"
    "''https://laclipasa-backend.fly.dev''
                @ drop (length ''/fly-api'') (pathname (req_url search_request))
                @ search (req_url search_request)
           = ''https://laclipasa-backend.fly.dev/items?q=1&r=2''"
    by code_simp+
  show ?thesis using m upstream_url[OF m, of cookie_client] by (simp only: e simp_thms)
qed

text \<open>
  For the request of the repository's test, which has no query, the URL handed to the
  client has no question mark; origin, path, question mark and query would give one.
\<close>

theorem upstream_url_counterexample:
  "startsWith (pathname (req_url users_request)) ''/fly-api/''
   \<and> map fr_url (snd (pages_handleRequest cookie_client users_request))
       = [''https://laclipasa-backend.fly.dev/users'']
   \<and> ''https://laclipasa-backend.fly.dev''
         @ drop (length ''/fly-api'') (pathname (req_url users_request))
         @ ''?'' @ query (req_url users_request)
       = ''https://laclipasa-backend.fly.dev/users?''
   \<and> map fr_url (snd (worker_fetch cookie_client users_request))
       = [''https://laclipasa-backend.fly.dev/fly-api/users'']
   \<and> ''https://laclipasa-backend.fly.dev'' @ pathname (req_url users_request)
         @ ''?'' @ query (req_url users_request)
       = ''https://laclipasa-backend.fly.dev/fly-api/users?''"
proof -
  have m: "startsWith (pathname (req_url users_request)) ''/fly-api/''" by code_simp
  have p: "fr_url (pages_modifiedRequest users_request (req_url users_request))
      = ''https://laclipasa-backend.fly.dev/users''" by code_simp
  have w: "fr_url (worker_modifiedRequest users_request (req_url users_request))
      = ''https://laclipasa-backend.fly.dev/fly-api/users''" by code_simp
  have e: "''https://laclipasa-backend.fly.dev''
         @ drop (length ''/fly-api'') (pathname (req_url users_request))
         @ ''?'' @ query (req_url users_request)
       = ''https://laclipasa-backend.fly.dev/users?''"
    "''https://laclipasa-backend.fly.dev'' @ pathname (req_url users_request)
         @ ''?'' @ query (req_url users_request)
       = ''https://laclipasa-backend.fly.dev/fly-api/users?''"
    by code_simp+
  have "map fr_url (snd (pages_handleRequest cookie_client users_request))
       = [''https://laclipasa-backend.fly.dev/users'']"
    by (simp add: pages_handleRequest_match[OF m] pages_handleApiRequest_calls p)
  moreover have "map fr_url (snd (worker_fetch cookie_client users_request))
       = [''https://laclipasa-backend.fly.dev/fly-api/users'']"
    by (simp add: worker_fetch_match[OF m] w)
  ultimately show ?thesis using m e by blast
qed

text \<open>
  Claim C5. The \<^verbatim>\<open>Set-Cookie\<close> values of the outbound response are the rewritten
  values of the upstream response, one entry for each value the rewrite returns a string
  for, in the upstream's order, each the rewrite of its own value alone; there are as
  many as the upstream has non-empty values. This holds for every response of the worker
  and for every response of the Pages function that is not a passed-through redirect.
\<close>

theorem cookies_kept_apart:
  "headers_getAll ''Set-Cookie''
       (resp_headers (fst (worker_handleApiRequest fetch request u)))
     = List.map_filter (\<lambda>c. modifyCookie c (req_url request))
         (headers_getAll ''Set-Cookie''
            (resp_headers (fetch (worker_modifiedRequest request u))))
   \<and> length (headers_getAll ''Set-Cookie''
       (resp_headers (fst (worker_handleApiRequest fetch request u))))
     = length (filter (\<lambda>c. c \<noteq> [])
         (headers_getAll ''Set-Cookie''
            (resp_headers (fetch (worker_modifiedRequest request u)))))
   \<and> (\<not> is_redirect (fetch (pages_modifiedRequest request u)) \<longrightarrow>
       headers_getAll ''Set-Cookie''
           (resp_headers (fst (pages_handleApiRequest fetch request u)))
         = List.map_filter (\<lambda>c. modifyCookie c (req_url request))
             (headers_getAll ''Set-Cookie''
                (resp_headers (fetch (pages_modifiedRequest request u))))
       \<and> length (headers_getAll ''Set-Cookie''
           (resp_headers (fst (pages_handleApiRequest fetch request u))))
         = length (filter (\<lambda>c. c \<noteq> [])
             (headers_getAll ''Set-Cookie''
                (resp_headers (fetch (pages_modifiedRequest request u))))))"
proof -
  have w: "fst (worker_handleApiRequest fetch request u)
      = rebuildResponse (fetch (worker_modifiedRequest request u)) request u"
    by (simp add: worker_handleApiRequest_def Let_def)
  have l: "length (List.map_filter (\<lambda>c. modifyCookie c (req_url request)) cs)
      = length (filter (\<lambda>c. c \<noteq> []) cs)" for cs
    by (simp add: map_filter_modifyCookie)
  show ?thesis
    using pages_handleApiRequest_final[of fetch request u]
    by (simp add: w cookies_rebuild l)
qed

theorem cookies_kept_apart_witness:
  "headers_getAll ''Set-Cookie''
       (resp_headers (fst (worker_handleApiRequest cookie_client example_request example_url)))
     = [''auth_token=abc123; Path=/; Domain=example.com; SameSite=None; Secure'',
        ''session=xyz789; Path=/; Domain=example.com; SameSite=None; Secure'']
   \<and> \<not> is_redirect cookie_response
   \<and> headers_getAll ''Set-Cookie''
       (resp_headers (fst (pages_handleApiRequest cookie_client example_request example_url)))
     = [''auth_token=abc123; Path=/; Domain=example.com; SameSite=None; Secure'',
        ''session=xyz789; Path=/; Domain=example.com; SameSite=None; Secure'']"
proof -
  have n: "\<not> is_redirect cookie_response" by code_simp
  have c: "List.map_filter (\<lambda>c. modifyCookie c (req_url example_request))
         (headers_getAll ''Set-Cookie'' (resp_headers cookie_response))
     = [''auth_token=abc123; Path=/; Domain=example.com; SameSite=None; Secure'',
        ''session=xyz789; Path=/; Domain=example.com; SameSite=None; Secure'']"
    by code_simp
  show ?thesis
    using n cookies_kept_apart[of cookie_client example_request example_url]
    by (simp add: cookie_client_def c)
qed

text \<open>
  Claim C7. For every request under the prefix, the response of the worker, and the
  response of the Pages function when the upstream's answer is not a passed-through
  redirect, has each of the four CORS headers exactly once, whatever the upstream sent
  under these names: the allowed origin is the scheme, \<^verbatim>\<open>://\<close> and the host
  (with its port) of the request URL, credentials are \<^verbatim>\<open>true\<close>, and the methods
  and headers are the two fixed lists.
\<close>

theorem cors_on_every_proxied_response:
  assumes "startsWith (pathname (req_url request)) ''/fly-api/''"
  shows "carries_cors (scheme (req_url request) @ ''://'' @ host (req_url request))
           (resp_headers (fst (worker_fetch fetch request)))
    \<and> (\<not> is_redirect (fetch (pages_modifiedRequest request (req_url request))) \<longrightarrow>
         carries_cors (scheme (req_url request) @ ''://'' @ host (req_url request))
           (resp_headers (fst (pages_handleRequest fetch request))))"
  using assms cors_rebuild[of "req_url request" _ request]
    pages_handleApiRequest_final[of fetch request "req_url request"]
  by (simp add: worker_fetch_match pages_handleRequest_match origin_def)

theorem cors_on_every_proxied_response_witness:
  "startsWith (pathname (req_url search_request)) ''/fly-api/''
   \<and> \<not> is_redirect cookie_response
   \<and> headers_get ''Access-Control-Allow-Origin''
        (resp_headers (fst (worker_fetch cookie_client search_request)))
      = Some ''https://example.com:8443''
   \<and> headers_get ''Access-Control-Allow-Origin''
        (resp_headers (fst (pages_handleRequest cookie_client search_request)))
      = Some ''https://example.com:8443''
   \<and> headers_get ''Access-Control-Allow-Credentials''
        (resp_headers (fst (pages_handleRequest cookie_client search_request)))
      = Some ''true''"
proof -
  have m: "startsWith (pathname (req_url search_request)) ''/fly-api/''" by code_simp
  have n: "\<not> is_redirect cookie_response" by code_simp
  have o: "scheme (req_url search_request) @ ''://'' @ host (req_url search_request)
      = ''https://example.com:8443''" by code_simp
  note t = cors_on_every_proxied_response[OF m, of cookie_client]
  from t have a: "carries_cors ''https://example.com:8443''
      (resp_headers (fst (worker_fetch cookie_client search_request)))"
    by (simp only: o)
  from t n have b: "carries_cors ''https://example.com:8443''
      (resp_headers (fst (pages_handleRequest cookie_client search_request)))"
    by (simp only: o cookie_client_def simp_thms)
  show ?thesis using m n a b by (simp add: carries_cors_def)
qed

text \<open>
  Claim C8. The rewrite returns nothing exactly for the empty value. A response is
  returned all the same, with the upstream's status: its \<^verbatim>\<open>Set-Cookie\<close> values
  are the rewrites of all the upstream's non-empty values, in order, also those after an
  empty one; every header that is neither a cookie nor one of the four CORS names reads as
  in the upstream response; the CORS headers are set.
\<close>

theorem dropped_cookie_does_not_abort:
  "(modifyCookie cookie url = None) = (cookie = [])
   \<and> resp_status (fst (worker_handleApiRequest fetch request u))
       = resp_status (fetch (worker_modifiedRequest request u))
   \<and> headers_getAll ''Set-Cookie''
         (resp_headers (fst (worker_handleApiRequest fetch request u)))
       = map (\<lambda>c. the (modifyCookie c (req_url request)))
           (filter (\<lambda>c. c \<noteq> [])
             (headers_getAll ''Set-Cookie''
                (resp_headers (fetch (worker_modifiedRequest request u)))))
   \<and> (\<not> written_name n \<longrightarrow>
        headers_get n (resp_headers (fst (worker_handleApiRequest fetch request u)))
          = headers_get n (resp_headers (fetch (worker_modifiedRequest request u))))
   \<and> carries_cors (origin u) (resp_headers (fst (worker_handleApiRequest fetch request u)))"
proof -
  have w: "fst (worker_handleApiRequest fetch request u)
      = rebuildResponse (fetch (worker_modifiedRequest request u)) request u"
    by (simp add: worker_handleApiRequest_def Let_def)
  have t: "map (\<lambda>c. str_join ''; '' (final_parts c (req_url request))) (filter (\<lambda>c. c \<noteq> []) cs)
      = map (\<lambda>c. the (modifyCookie c (req_url request))) (filter (\<lambda>c. c \<noteq> []) cs)" for cs
    by (rule map_cong[OF refl]) (simp add: modifyCookie_def)
  have "(modifyCookie cookie url = None) = (cookie = [])" by (simp add: modifyCookie_def)
  then show ?thesis
    using get_rebuild_unwritten[of n "fetch (worker_modifiedRequest request u)" request u]
    by (simp add: w rebuild_status cookies_rebuild map_filter_modifyCookie t cors_rebuild)
qed

theorem dropped_cookie_does_not_abort_witness:
  "modifyCookie [] example_url = None
   \<and> headers_getAll ''Set-Cookie'' (resp_headers cookie_response)
       = [''auth_token=abc123; Path=/; Domain=laclipasa-backend.fly.dev'', [],
          ''session=xyz789; Path=/'']
   \<and> resp_status (fst (worker_handleApiRequest cookie_client example_request example_url)) = 200
   \<and> headers_getAll ''Set-Cookie''
         (resp_headers (fst (worker_handleApiRequest cookie_client example_request example_url)))
       = [''auth_token=abc123; Path=/; Domain=example.com; SameSite=None; Secure'',
          ''session=xyz789; Path=/; Domain=example.com; SameSite=None; Secure'']
   \<and> \<not> written_name ''Content-Type''
   \<and> headers_get ''Content-Type''
         (resp_headers (fst (worker_handleApiRequest cookie_client example_request example_url)))
       = Some ''application/json''"
proof -
  have n: "\<not> written_name ''Content-Type''" by code_simp
  have c: "headers_getAll ''Set-Cookie'' (resp_headers cookie_response)
       = [''auth_token=abc123; Path=/; Domain=laclipasa-backend.fly.dev'', [],
          ''session=xyz789; Path=/'']" by code_simp
  have m: "the (modifyCookie ''auth_token=abc123; Path=/; Domain=laclipasa-backend.fly.dev''
              (req_url example_request))
      = ''auth_token=abc123; Path=/; Domain=example.com; SameSite=None; Secure''"
    "the (modifyCookie ''session=xyz789; Path=/'' (req_url example_request))
      = ''session=xyz789; Path=/; Domain=example.com; SameSite=None; Secure''"
    by code_simp+
  have g: "headers_get ''Content-Type'' (resp_headers cookie_response) = Some ''application/json''"
    by code_simp
  have s: "resp_status cookie_response = 200" by (simp add: cookie_response_def)
  note t = dropped_cookie_does_not_abort[of "[]" example_url cookie_client example_request
      example_url "''Content-Type''"]
  from t have 1: "modifyCookie [] example_url = None" by simp
  from t have 2: "resp_status (fst (worker_handleApiRequest cookie_client example_request example_url)) = 200"
    by (simp add: cookie_client_def s)
  from t have 3: "headers_getAll ''Set-Cookie''
         (resp_headers (fst (worker_handleApiRequest cookie_client example_request example_url)))
       = [''auth_token=abc123; Path=/; Domain=example.com; SameSite=None; Secure'',
          ''session=xyz789; Path=/; Domain=example.com; SameSite=None; Secure'']"
    by (simp add: cookie_client_def c m)
  from t n have 4: "headers_get ''Content-Type''
         (resp_headers (fst (worker_handleApiRequest cookie_client example_request example_url)))
       = Some ''application/json''"
    by (simp add: cookie_client_def g)
  show ?thesis using 1 2 3 4 n c by blast
qed

text \<open>
  Claim C9. For every request whose path does not start with the prefix, the worker (and
  the template, with its own prefix) returns status 200 with the fixed text that names the
  prefix as body, and hands no request to the HTTP client.
\<close>

theorem fallback_response:
  "(\<not> startsWith (pathname (req_url request)) ''/fly-api/'' \<longrightarrow>
      resp_status (fst (worker_fetch fetch request)) = 200
      \<and> resp_body (fst (worker_fetch fetch request))
          = Some ''This is a proxy worker. API requests should be sent to /fly-api/...''
      \<and> snd (worker_fetch fetch request) = [])
   \<and> (\<not> startsWith (pathname (req_url request)) ''/api/'' \<longrightarrow>
      resp_status (fst (template_fetch fetch request)) = 200
      \<and> resp_body (fst (template_fetch fetch request))
          = Some ''This is a proxy worker. API requests should be sent to /api/...''
      \<and> snd (template_fetch fetch request) = [])"
  by (simp add: worker_fetch_def template_fetch_def text_response_def Let_def)

theorem fallback_response_witness:
  "\<not> startsWith (pathname (req_url home_request)) ''/fly-api/''
   \<and> \<not> startsWith (pathname (req_url home_request)) ''/api/''
   \<and> worker_fetch cookie_client home_request
       = (\<lparr>resp_status = 200, resp_statusText = [],
           resp_headers = [(''content-type'', ''text/plain;charset=UTF-8'')],
           resp_body =
             Some ''This is a proxy worker. API requests should be sent to /fly-api/...''\<rparr>,
          [])
   \<and> resp_body (fst (template_fetch cookie_client home_request))
       = Some ''This is a proxy worker. API requests should be sent to /api/...''
   \<and> snd (template_fetch cookie_client home_request) = []"
proof -
  have a: "\<not> startsWith (pathname (req_url home_request)) ''/fly-api/''"
    and b: "\<not> startsWith (pathname (req_url home_request)) ''/api/''"
    by code_simp+
  have h: "resp_statusText (fst (worker_fetch cookie_client home_request)) = []"
    "resp_headers (fst (worker_fetch cookie_client home_request))
       = [(''content-type'', ''text/plain;charset=UTF-8'')]"
    using a by (simp_all add: worker_fetch_def text_response_def Let_def)
  note t = fallback_response[of home_request cookie_client]
  from t a have w: "resp_status (fst (worker_fetch cookie_client home_request)) = 200"
    "resp_body (fst (worker_fetch cookie_client home_request))
          = Some ''This is a proxy worker. API requests should be sent to /fly-api/...''"
    "snd (worker_fetch cookie_client home_request) = []"
    by blast+
  from t b have p: "resp_body (fst (template_fetch cookie_client home_request))
       = Some ''This is a proxy worker. API requests should be sent to /api/...''"
    "snd (template_fetch cookie_client home_request) = []"
    by blast+
  have "fst (worker_fetch cookie_client home_request)
      = \<lparr>resp_status = 200, resp_statusText = [],
           resp_headers = [(''content-type'', ''text/plain;charset=UTF-8'')],
           resp_body =
             Some ''This is a proxy worker. API requests should be sent to /fly-api/...''\<rparr>"
    using w(1,2) h by (cases "fst (worker_fetch cookie_client home_request)") simp
  then have "worker_fetch cookie_client home_request
       = (\<lparr>resp_status = 200, resp_statusText = [],
           resp_headers = [(''content-type'', ''text/plain;charset=UTF-8'')],
           resp_body =
             Some ''This is a proxy worker. API requests should be sent to /fly-api/...''\<rparr>,
          [])"
    using w(3) by (simp add: prod_eq_iff)
  then show ?thesis using a b p by blast
qed

end
